theory Spec2Isabelle
  imports Complex_Main "HOL-Library.Word" "HOL-Library.Extended_Nat"
begin

unbundle bit_operations_syntax

section \<open>Wire messages (daq.proto)\<close>

text \<open>
  The protocol's scalar types: \<open>uint32\<close> and \<open>uint64\<close> are machine words, \<open>bytes\<close> is a
  list of octets, \<open>map<string, string>\<close> is an association list. C\# strings are kept as
  their UTF-8 octets (what travels in the message), so the Chinese texts of the service are
  written with \<open>CHR 0x..\<close>.
\<close>

type_synonym uint32 = "32 word"
type_synonym uint64 = "64 word"
type_synonym byte = "8 word"

record DataChunk =
  Payload :: "byte list"
  Seq :: uint32
  TickNs :: uint64
  Tags :: "(string \<times> string) list"

record DataRequest =
  Channels :: uint32
  SampleRate :: uint32
  BufferSize :: uint32
  Config :: "(string \<times> string) list"

text \<open>
  \<open>ControlCmd.Types.Command\<close> is a proto3 enum: a 32-bit integer of which five values are
  named; any other value can arrive on the wire and is kept as it is.
\<close>

record ControlCmd =
  Cmd :: "32 word"
  Params :: "(string \<times> string) list"

definition Command_Start :: "32 word" where "Command_Start = 0"
definition Command_Stop :: "32 word" where "Command_Stop = 1"
definition Command_Pause :: "32 word" where "Command_Pause = 2"
definition Command_Resume :: "32 word" where "Command_Resume = 3"
definition Command_Reset :: "32 word" where "Command_Reset = 4"

record Ack =
  Success :: bool
  Message :: string
  Timestamp :: uint64

section \<open>Exceptions\<close>

datatype StatusCode = InvalidArgument | Internal

datatype exn =
    RpcException StatusCode string
  | OperationCanceledException
  | OverflowException
  | IndexOutOfRangeException
  | IOException

section \<open>DAQDataService: sessions and the global enable flag\<close>

record ClientSession =
  ClientId :: string
  Request :: DataRequest
  CancellationRequested :: bool
  IsActive :: bool

record DAQDataService =
  sessions :: "string \<rightharpoonup> ClientSession"
  subscribers :: "string list"
  globalDataGeneration :: bool

definition StartDataGeneration :: "DataRequest \<Rightarrow> string \<Rightarrow> DAQDataService \<Rightarrow> DAQDataService" where
  "StartDataGeneration request clientId svc =
     svc\<lparr>sessions := (sessions svc)(clientId \<mapsto>
       \<lparr>ClientId = clientId, Request = request, CancellationRequested = False, IsActive = True\<rparr>)\<rparr>"

definition StopDataGeneration :: "string \<Rightarrow> DAQDataService \<Rightarrow> DAQDataService" where
  "StopDataGeneration clientId svc =
     (case sessions svc clientId of
        None \<Rightarrow> svc
      | Some session \<Rightarrow> svc\<lparr>sessions := (sessions svc)(clientId := None)\<rparr>)"

definition Subscribe_data :: "string \<Rightarrow> DAQDataService \<Rightarrow> DAQDataService" where
  "Subscribe_data clientId svc =
     svc\<lparr>subscribers := clientId # filter (\<lambda>c. c \<noteq> clientId) (subscribers svc)\<rparr>"

definition StartGlobalDataGeneration :: "DAQDataService \<Rightarrow> bool \<times> DAQDataService" where
  "StartGlobalDataGeneration svc = (True, svc\<lparr>globalDataGeneration := True\<rparr>)"

definition StopGlobalDataGeneration :: "DAQDataService \<Rightarrow> bool \<times> DAQDataService" where
  "StopGlobalDataGeneration svc =
     (True, svc\<lparr>globalDataGeneration := False,
                sessions := (\<lambda>c. map_option
                  (\<lambda>session. session\<lparr>IsActive := False, CancellationRequested := True\<rparr>)
                  (sessions svc c))\<rparr>)"

definition PauseGlobalDataGeneration :: "DAQDataService \<Rightarrow> bool \<times> DAQDataService" where
  "PauseGlobalDataGeneration svc = (True, svc\<lparr>globalDataGeneration := False\<rparr>)"

definition ResumeGlobalDataGeneration :: "DAQDataService \<Rightarrow> bool \<times> DAQDataService" where
  "ResumeGlobalDataGeneration svc = (True, svc\<lparr>globalDataGeneration := True\<rparr>)"

definition ResetGlobalDataGeneration :: "DAQDataService \<Rightarrow> bool \<times> DAQDataService" where
  "ResetGlobalDataGeneration svc =
     (let (stopped, svc1) = StopGlobalDataGeneration svc;
          (started, svc2) = StartGlobalDataGeneration svc1
      in (True, svc2))"

section \<open>DAQStreamService.Control\<close>

fun digit_char :: "nat \<Rightarrow> char" where
  "digit_char n = char_of (48 + n)"

fun nat_ToString_aux :: "nat \<Rightarrow> nat \<Rightarrow> string \<Rightarrow> string" where
  "nat_ToString_aux 0 n acc = acc"
| "nat_ToString_aux (Suc fuel) n acc =
     (if n < 10 then digit_char n # acc
      else nat_ToString_aux fuel (n div 10) (digit_char (n mod 10) # acc))"

definition nat_ToString :: "nat \<Rightarrow> string" where
  "nat_ToString n = nat_ToString_aux 10 n []"

text \<open>
  \<open>Enum.ToString\<close>: the name of a named value, the signed decimal number of any other.
  (The generated C\# names of \<open>START\<close> ... \<open>RESET\<close> are \<open>Start\<close> ... \<open>Reset\<close>, as the
  \<open>switch\<close> in \<open>Control\<close> writes them.)
\<close>

definition Command_ToString :: "32 word \<Rightarrow> string" where
  "Command_ToString c =
     (if c = Command_Start then ''Start''
      else if c = Command_Stop then ''Stop''
      else if c = Command_Pause then ''Pause''
      else if c = Command_Resume then ''Resume''
      else if c = Command_Reset then ''Reset''
      else if sint c < 0 then CHR ''-'' # nat_ToString (nat (- sint c))
      else nat_ToString (nat (sint c)))"

definition msg_command :: string where
  "msg_command = [CHR 0xE5, CHR 0x91, CHR 0xBD, CHR 0xE4, CHR 0xBB, CHR 0xA4, CHR 0x20]"

definition msg_succeeded :: string where
  "msg_succeeded = [CHR 0x20, CHR 0xE6, CHR 0x89, CHR 0xA7, CHR 0xE8, CHR 0xA1, CHR 0x8C,
                    CHR 0xE6, CHR 0x88, CHR 0x90, CHR 0xE5, CHR 0x8A, CHR 0x9F]"

definition msg_failed :: string where
  "msg_failed = [CHR 0x20, CHR 0xE6, CHR 0x89, CHR 0xA7, CHR 0xE8, CHR 0xA1, CHR 0x8C,
                 CHR 0xE5, CHR 0xA4, CHR 0xB1, CHR 0xE8, CHR 0xB4, CHR 0xA5]"

text \<open>
  The \<open>switch\<close> of \<open>Control\<close>: each of the five service operations, and \<open>false\<close> for any
  other value. None of the five raises, so the \<open>catch\<close> of \<open>Control\<close> has no branch here.
  \<open>now_ms\<close> is \<open>DateTimeOffset.UtcNow.ToUnixTimeMilliseconds()\<close>.
\<close>

definition Control_dispatch :: "32 word \<Rightarrow> DAQDataService \<Rightarrow> bool \<times> DAQDataService" where
  "Control_dispatch c svc =
     (if c = Command_Start then StartGlobalDataGeneration svc
      else if c = Command_Stop then StopGlobalDataGeneration svc
      else if c = Command_Pause then PauseGlobalDataGeneration svc
      else if c = Command_Resume then ResumeGlobalDataGeneration svc
      else if c = Command_Reset then ResetGlobalDataGeneration svc
      else (False, svc))"

definition Control :: "ControlCmd \<Rightarrow> int \<Rightarrow> DAQDataService \<Rightarrow> Ack \<times> DAQDataService" where
  "Control request now_ms svc =
     (let (success, svc') = Control_dispatch (Cmd request) svc
      in (\<lparr>Success = success,
           Message = (if success
                      then msg_command @ Command_ToString (Cmd request) @ msg_succeeded
                      else msg_command @ Command_ToString (Cmd request) @ msg_failed),
           Timestamp = word_of_int now_ms\<rparr>, svc'))"

definition known_commands :: "32 word list" where
  "known_commands = [Command_Start, Command_Stop, Command_Pause, Command_Resume, Command_Reset]"

section \<open>DAQStreamService.Subscribe: the transport loop\<close>

text \<open>
  The queue between the generator task and the transport loop is filled by another thread
  and the loop ends when the call is cancelled, so a run of the loop is driven by a
  schedule: one entry for each \<open>TryDequeue\<close> the loop performs, holding the chunks the
  generator enqueued since the previous one, the clock read at the write, and the outcome
  of \<open>WriteAsync\<close>. The schedule ends where the cancellation is observed.
\<close>

record attempt =
  arrived :: "DataChunk list"
  utc_now_ns :: int
  write_error :: "exn option"

record transport =
  dataQueue :: "DataChunk list"
  sequenceNumber :: uint32
  chunksSent :: nat
  written :: "DataChunk list"

definition transport_init :: transport where
  "transport_init = \<lparr>dataQueue = [], sequenceNumber = 0, chunksSent = 0, written = []\<rparr>"

text \<open>
  One evaluation of the inner loop's condition \<open>dataQueue.TryDequeue(out var chunk) && chunksSent < 10\<close>
  and, when it holds, of the body. \<open>TryDequeue\<close> is the left operand: when the queue is not
  empty the chunk is taken out before \<open>chunksSent < 10\<close> is looked at. When the condition
  fails the batch is over and the outer loop starts the next one with \<open>chunksSent = 0\<close>.
\<close>

definition TryDequeue_step :: "int \<Rightarrow> attempt \<Rightarrow> transport \<Rightarrow> exn + transport" where
  "TryDequeue_step startTime a st =
     (case dataQueue st @ arrived a of
        [] \<Rightarrow> Inr (st\<lparr>dataQueue := [], chunksSent := 0\<rparr>)
      | chunk # rest \<Rightarrow>
          if chunksSent st < 10 then
            (case write_error a of
               Some e \<Rightarrow> Inl e
             | None \<Rightarrow>
                 Inr (st\<lparr>dataQueue := rest,
                         sequenceNumber := sequenceNumber st + 1,
                         chunksSent := chunksSent st + 1,
                         written := written st @
                           [chunk\<lparr>Seq := sequenceNumber st,
                                  TickNs := word_of_int (startTime + utc_now_ns a)\<rparr>]\<rparr>))
          else Inr (st\<lparr>dataQueue := rest, chunksSent := 0\<rparr>))"

fun transport_loop :: "int \<Rightarrow> attempt list \<Rightarrow> transport \<Rightarrow> exn option \<times> transport" where
  "transport_loop startTime [] st = (None, st)"
| "transport_loop startTime (a # as) st =
     (case TryDequeue_step startTime a st of
        Inl e \<Rightarrow> (Some e, st)
      | Inr st' \<Rightarrow> transport_loop startTime as st')"

definition msg_invalid_request :: string where
  "msg_invalid_request =
     [CHR 0xE6, CHR 0x97, CHR 0xA0, CHR 0xE6, CHR 0x95, CHR 0x88, CHR 0xE7, CHR 0x9A, CHR 0x84,
      CHR 0xE8, CHR 0xAF, CHR 0xB7, CHR 0xE6, CHR 0xB1, CHR 0x82, CHR 0xE5, CHR 0x8F, CHR 0x82,
      CHR 0xE6, CHR 0x95, CHR 0xB0]"

definition msg_transfer_error :: string where
  "msg_transfer_error =
     [CHR 0xE6, CHR 0x95, CHR 0xB0, CHR 0xE6, CHR 0x8D, CHR 0xAE, CHR 0xE6, CHR 0xB5, CHR 0x81,
      CHR 0xE4, CHR 0xBC, CHR 0xA0, CHR 0xE8, CHR 0xBE, CHR 0x93, CHR 0xE9, CHR 0x94, CHR 0x99,
      CHR 0xE8, CHR 0xAF, CHR 0xAF, CHR 0x3A, CHR 0x20]"

text \<open>
  The body of the \<open>try\<close> block of \<open>Subscribe\<close>: the exception it ends with (if any), the
  chunks written to the response stream, and the service's state.
\<close>

definition Subscribe_try ::
  "DataRequest \<Rightarrow> string \<Rightarrow> int \<Rightarrow> attempt list \<Rightarrow> DAQDataService
     \<Rightarrow> exn option \<times> DataChunk list \<times> DAQDataService" where
  "Subscribe_try request clientId startTime schedule svc =
     (if Channels request = 0 \<or> SampleRate request = 0 \<or> BufferSize request = 0
      then (Some (RpcException InvalidArgument msg_invalid_request), [], svc)
      else
        let svc1 = StartDataGeneration request clientId svc;
            svc2 = Subscribe_data clientId svc1;
            (ex, st) = transport_loop startTime schedule transport_init
        in (ex, written st, svc2))"

text \<open>
  \<open>Subscribe\<close> with its handlers: \<open>catch (OperationCanceledException)\<close> swallows a
  cancellation, \<open>catch (Exception ex)\<close> turns every other exception of the block into an
  \<open>RpcException\<close> with \<open>StatusCode.Internal\<close>, and \<open>finally\<close> stops the client's
  generation. \<open>ex_Message\<close> is the runtime's \<open>Exception.Message\<close>.
\<close>

definition Subscribe ::
  "(exn \<Rightarrow> string) \<Rightarrow> DataRequest \<Rightarrow> string \<Rightarrow> int \<Rightarrow> attempt list \<Rightarrow> DAQDataService
     \<Rightarrow> exn option \<times> DataChunk list \<times> DAQDataService" where
  "Subscribe ex_Message request clientId startTime schedule svc =
     (case Subscribe_try request clientId startTime schedule svc of
        (thrown, out, svc') \<Rightarrow>
          ((case thrown of
              None \<Rightarrow> None
            | Some OperationCanceledException \<Rightarrow> None
            | Some ex \<Rightarrow> Some (RpcException Internal (msg_transfer_error @ ex_Message ex))),
           out,
           StopDataGeneration clientId svc'))"

definition Subscribe_written ::
  "(exn \<Rightarrow> string) \<Rightarrow> DataRequest \<Rightarrow> string \<Rightarrow> int \<Rightarrow> attempt list \<Rightarrow> DAQDataService
     \<Rightarrow> DataChunk list" where
  "Subscribe_written ex_Message request clientId startTime schedule svc =
     fst (snd (Subscribe ex_Message request clientId startTime schedule svc))"

section \<open>DAQDataService: the sample generator\<close>

text \<open>
  \<open>double\<close> values are modelled as real numbers: the arithmetic of the generator is the
  exact one, without the rounding of IEEE doubles. The random source is a parameter:
  \<open>noise sample channel\<close> is the value \<open>Random.Shared.NextDouble()\<close> returns in the
  iteration for that sample and channel.

  \<open>GenerateHighPerformanceData\<close> is private and is reached only through \<open>Subscribe\<close>,
  after the validation: the three fields of its request are not 0.
\<close>

definition baseFrequency :: real where
  "baseFrequency = 1000"

definition amplitude :: real where
  "amplitude = 32767 * 0.8"

text \<open>
  \<open>(sequenceNumber * samplesPerChannel + sample) / (double)sampleRate\<close>: the product of a
  \<open>uint\<close> and an \<open>int\<close> is computed in \<open>long\<close>, where it does not overflow. (The
  parameter \<open>sequenceNumber\<close> of the generator is \<open>seqNumber\<close> here.)
\<close>

definition sample_time :: "DataRequest \<Rightarrow> uint32 \<Rightarrow> nat \<Rightarrow> real" where
  "sample_time request seqNumber sample =
     real_of_int (uint seqNumber * sint (BufferSize request) + int sample)
       / real (unat (SampleRate request))"

definition channel_phase :: "DataRequest \<Rightarrow> uint32 \<Rightarrow> nat \<Rightarrow> nat \<Rightarrow> real" where
  "channel_phase request seqNumber sample channel =
     2 * pi * (baseFrequency * (1 + real channel * 0.1)) * sample_time request seqNumber sample"

definition sample_value :: "DataRequest \<Rightarrow> uint32 \<Rightarrow> (nat \<Rightarrow> nat \<Rightarrow> real) \<Rightarrow> nat \<Rightarrow> nat \<Rightarrow> real" where
  "sample_value request seqNumber noise sample channel =
     amplitude * (0.6 * sin (channel_phase request seqNumber sample channel) +
                  0.3 * sin (2 * channel_phase request seqNumber sample channel) +
                  0.1 * sin (3 * channel_phase request seqNumber sample channel))
     + (noise sample channel - 0.5) * amplitude * 0.02"

definition Math_Clamp :: "real \<Rightarrow> real \<Rightarrow> real \<Rightarrow> real" where
  "Math_Clamp v lo hi = (if v < lo then lo else if v > hi then hi else v)"

text \<open>The cast \<open>(short)\<close> of a double in the range of \<open>short\<close>: truncation towards zero.\<close>

definition truncate_real :: "real \<Rightarrow> int" where
  "truncate_real x = (if 0 \<le> x then \<lfloor>x\<rfloor> else \<lceil>x\<rceil>)"

definition sample16 :: "DataRequest \<Rightarrow> uint32 \<Rightarrow> (nat \<Rightarrow> nat \<Rightarrow> real) \<Rightarrow> nat \<Rightarrow> nat \<Rightarrow> 16 word" where
  "sample16 request seqNumber noise sample channel =
     word_of_int (truncate_real
       (Math_Clamp (sample_value request seqNumber noise sample channel) (- 32768) 32767))"

text \<open>
  The two stores into \<open>bufferSpan\<close> of one iteration: \<open>BitConverter.GetBytes\<close> gives the low
  byte first (on the little-endian machines the service runs on). The index of a span is an
  \<open>int\<close>; an index outside the span raises.
\<close>

definition low_byte :: "16 word \<Rightarrow> byte" where
  "low_byte w = ucast w"

definition high_byte :: "16 word \<Rightarrow> byte" where
  "high_byte w = ucast (drop_bit 8 w)"

definition span_set :: "byte list \<Rightarrow> int \<Rightarrow> byte \<Rightarrow> exn + byte list" where
  "span_set buf i b =
     (if 0 \<le> i \<and> i < int (length buf) then Inr (buf[nat i := b]) else Inl IndexOutOfRangeException)"

definition store_sample :: "16 word \<Rightarrow> byte list \<times> 32 word \<Rightarrow> exn + byte list \<times> 32 word" where
  "store_sample w st =
     (case span_set (fst st) (sint (snd st * 2)) (low_byte w) of
        Inl e \<Rightarrow> Inl e
      | Inr buf1 \<Rightarrow>
          (case span_set buf1 (sint (snd st * 2 + 1)) (high_byte w) of
             Inl e \<Rightarrow> Inl e
           | Inr buf2 \<Rightarrow> Inr (buf2, snd st + 1)))"

text \<open>\<open>for (var i = 0; i < n; i++) body\<close>, over the values of \<open>i\<close> in order, until a body raises.\<close>

fun for_loop :: "nat list \<Rightarrow> (nat \<Rightarrow> 's \<Rightarrow> exn + 's) \<Rightarrow> 's \<Rightarrow> exn + 's" where
  "for_loop [] body s = Inr s"
| "for_loop (i # rest) body s =
     (case body i s of Inl e \<Rightarrow> Inl e | Inr s' \<Rightarrow> for_loop rest body s')"

text \<open>
  \<open>channels\<close> and \<open>samplesPerChannel\<close> are the request's fields cast to \<open>int\<close>, and the
  buffer's length \<open>channels * samplesPerChannel * 2\<close> is an \<open>int\<close> product: all three are
  32-bit words read as signed. \<open>new byte[n]\<close> raises for a negative \<open>n\<close>.
\<close>

definition GenerateHighPerformanceData ::
  "DataRequest \<Rightarrow> uint32 \<Rightarrow> (nat \<Rightarrow> nat \<Rightarrow> real) \<Rightarrow> exn + byte list" where
  "GenerateHighPerformanceData request seqNumber noise =
     (let channels = sint (Channels request);
          samplesPerChannel = sint (BufferSize request);
          len = sint (Channels request * BufferSize request * 2)
      in if len < 0 then Inl OverflowException
         else
           (case for_loop [0..<nat samplesPerChannel]
                   (\<lambda>sample. for_loop [0..<nat channels]
                      (\<lambda>channel. store_sample (sample16 request seqNumber noise sample channel)))
                   (replicate (nat len) 0, 0)
            of Inl e \<Rightarrow> Inl e
             | Inr st \<Rightarrow> Inr (fst st)))"

text \<open>Reading a payload back: the signed 16-bit sample in slot \<open>k\<close>.\<close>

definition decode_sample :: "byte list \<Rightarrow> nat \<Rightarrow> int" where
  "decode_sample bytes k = sint (word_cat (bytes ! (2 * k + 1)) (bytes ! (2 * k)) :: 16 word)"

section \<open>DAQDataService: the pacer\<close>

text \<open>
  A \<open>double\<close> that may be infinite or not a number: the finite ones are real numbers (the
  arithmetic is the exact one, and the sign of a zero is kept only where it decides a result).
\<close>

datatype double = Finite real | PositiveInfinity | NegativeInfinity | NaN

text \<open>\<open>bytesPerChunk\<close>: a \<open>uint\<close> times two \<open>int\<close>s is a \<open>long\<close> product, cast to \<open>int\<close>.\<close>

definition bytesPerChunk :: "DataRequest \<Rightarrow> int" where
  "bytesPerChunk request = sint (word_of_int (uint (Channels request) * sint (BufferSize request) * 2) :: 32 word)"

text \<open>
  The interval between chunks, as \<open>GenerateDataForClient\<close> computes it before its loop:
  \<open>samplesPerSecond\<close> is a \<open>uint\<close> product, \<open>samplesPerChunk\<close> is the buffer size cast to
  \<open>int\<close>, \<open>chunksPerSecond = (double)samplesPerSecond / samplesPerChunk\<close> and
  \<open>targetIntervalMs = 1000.0 / chunksPerSecond\<close>. With \<open>samplesPerChunk = 0\<close> the first
  quotient is \<open>Infinity\<close> (and the interval 0) or, for \<open>0 / 0\<close>, not a number; with
  \<open>samplesPerSecond = 0\<close> it is a zero with the sign of \<open>samplesPerChunk\<close>, and the interval
  is the infinity of that sign.
\<close>

definition targetIntervalMs :: "DataRequest \<Rightarrow> double" where
  "targetIntervalMs request =
     (let samplesPerChunk = sint (BufferSize request);
          samplesPerSecond = unat (SampleRate request * Channels request)
      in if samplesPerChunk = 0 then (if samplesPerSecond = 0 then NaN else Finite 0)
         else if samplesPerSecond = 0
              then (if 0 < samplesPerChunk then PositiveInfinity else NegativeInfinity)
         else Finite (1000 / (real samplesPerSecond / real_of_int samplesPerChunk)))"

text \<open>\<open>targetDataRate\<close> of \<open>Subscribe\<close> (bytes per second; a \<open>uint\<close> product times an \<open>int\<close>).\<close>

definition targetDataRate :: "DataRequest \<Rightarrow> int" where
  "targetDataRate request = uint (Channels request * SampleRate request) * 2"

text \<open>
  How a turn ends: without a delay, with \<open>Task.Delay\<close> of a number of milliseconds, or
  with \<open>Task.Delay(TimeSpan.FromMilliseconds(Infinity))\<close>. The model records the delay
  that is asked for; what the runtime does with a delay outside the range of \<open>Task.Delay\<close>
  is not part of it.
\<close>

datatype pause = NoDelay | Delay real | DelayInfinite

text \<open>
  The end of a cycle: \<open>targetDelay = Math.Max(0, targetIntervalMs - generationDuration)\<close>,
  and \<open>Task.Delay(targetDelay)\<close> only if \<open>targetDelay > 0\<close>. The duration is a finite
  number; \<open>Math.Max\<close> of 0 and \<open>-Infinity\<close> is 0, of 0 and \<open>NaN\<close> is \<open>NaN\<close>, and
  \<open>NaN > 0\<close> is false.
\<close>

definition targetDelay :: "double \<Rightarrow> real \<Rightarrow> double" where
  "targetDelay interval generationDurationMs =
     (case interval of
        Finite i \<Rightarrow> Finite (max 0 (i - generationDurationMs))
      | PositiveInfinity \<Rightarrow> PositiveInfinity
      | NegativeInfinity \<Rightarrow> Finite 0
      | NaN \<Rightarrow> NaN)"

definition pacer_pause :: "double \<Rightarrow> real \<Rightarrow> pause" where
  "pacer_pause interval generationDurationMs =
     (case targetDelay interval generationDurationMs of
        Finite delay \<Rightarrow> (if delay > 0 then Delay delay else NoDelay)
      | PositiveInfinity \<Rightarrow> DelayInfinite
      | NegativeInfinity \<Rightarrow> NoDelay
      | NaN \<Rightarrow> NoDelay)"

text \<open>
  One turn of the loop of \<open>GenerateDataForClient\<close>, for a session that is active: the
  chunk handed to the client's subscriber (if one is generated), the next sequence number and the
  pause that ends the turn; or the exception that ends the loop. \<open>interval\<close> is the local
  \<open>targetIntervalMs\<close>, \<open>shouldGenerate\<close> is the global flag as read under the lock,
  \<open>now_ms\<close> and \<open>generationDurationMs\<close> are the clock's readings.
\<close>

record cycle =
  chunk_out :: "DataChunk option"
  next_seq :: uint32
  pause_out :: pause

definition GenerateDataForClient_cycle ::
  "string \<Rightarrow> DataRequest \<Rightarrow> double \<Rightarrow> bool \<Rightarrow> uint32 \<Rightarrow> (nat \<Rightarrow> nat \<Rightarrow> real) \<Rightarrow> int \<Rightarrow> real
     \<Rightarrow> exn + cycle" where
  "GenerateDataForClient_cycle clientId request interval shouldGenerate seqNumber noise now_ms
       generationDurationMs =
     (if \<not> shouldGenerate
      then Inr \<lparr>chunk_out = None, next_seq = seqNumber, pause_out = Delay 10\<rparr>
      else
        (case GenerateHighPerformanceData request seqNumber noise of
           Inl e \<Rightarrow> Inl e
         | Inr bytes \<Rightarrow>
             Inr \<lparr>chunk_out = Some
                    \<lparr>Payload = bytes, Seq = seqNumber,
                     TickNs = word_of_int (now_ms * 1000000),
                     Tags = [(''clientId'', clientId),
                             (''channels'', nat_ToString (unat (Channels request))),
                             (''sampleRate'', nat_ToString (unat (SampleRate request))),
                             (''bufferSize'', nat_ToString (unat (BufferSize request)))]\<rparr>,
                  next_seq = seqNumber + 1,
                  pause_out = pacer_pause interval generationDurationMs\<rparr>))"

text \<open>
  The turns of the loop that \<open>GenerateDataForClient\<close> runs for a session: the local
  \<open>targetIntervalMs\<close> is computed once, from the session's request, before the loop.
\<close>

definition GenerateDataForClient_turn ::
  "string \<Rightarrow> DataRequest \<Rightarrow> bool \<Rightarrow> uint32 \<Rightarrow> (nat \<Rightarrow> nat \<Rightarrow> real) \<Rightarrow> int \<Rightarrow> real
     \<Rightarrow> exn + cycle" where
  "GenerateDataForClient_turn clientId request shouldGenerate seqNumber noise now_ms
       generationDurationMs =
     GenerateDataForClient_cycle clientId request (targetIntervalMs request) shouldGenerate
       seqNumber noise now_ms generationDurationMs"

text \<open>
  The state of the two loops after \<open>k\<close> iterations: the buffer has its length, the sample
  index is \<open>k\<close>, and the first \<open>k\<close> slots hold the samples \<open>smp 0, ..., smp (k - 1)\<close>, low
  byte first.
\<close>

definition filled :: "(nat \<Rightarrow> 16 word) \<Rightarrow> nat \<Rightarrow> nat \<Rightarrow> byte list \<times> 32 word \<Rightarrow> bool" where
  "filled smp L k st =
     (length (fst st) = L \<and> snd st = word_of_nat k \<and>
      (\<forall>j < k. fst st ! (2 * j) = low_byte (smp j) \<and> fst st ! (2 * j + 1) = high_byte (smp j)))"

text \<open>
  Samples \<open>xs\<close> approximate the expected samples \<open>ys\<close> within the tolerance \<open>tol\<close> (in
  units of the 16-bit scale).
\<close>

definition approximates :: "int \<Rightarrow> int list \<Rightarrow> int list \<Rightarrow> bool" where
  "approximates tol xs ys = list_all2 (\<lambda>x y. \<bar>x - y\<bar> \<le> tol) xs ys"

definition decode_samples :: "byte list \<Rightarrow> int list" where
  "decode_samples bytes = map (decode_sample bytes) [0..<length bytes div 2]"

section \<open>WaveformChart: the circular buffer (client)\<close>

text \<open>
  The buffer's two \<open>Float32Array\<close>s are lists of numbers of a fixed length. A store into a
  \<open>Float32Array\<close> rounds the number to single precision: that rounding is the parameter
  \<open>fround\<close> of \<open>push\<close> (\<open>Math.fround\<close>). A store outside the array is ignored, a read
  outside it yields \<open>undefined\<close>.

  \<open>writeIndex\<close> is a JavaScript number: \<open>(writeIndex + 1) % size\<close> is \<open>NaN\<close> when \<open>size\<close>
  is 0, and every later index computed from it is \<open>NaN\<close> too. \<open>None\<close> stands for \<open>NaN\<close>.
  The class's field \<open>size\<close> is \<open>size_buf\<close> here, and the fields \<open>values\<close>, \<open>times\<close> and
  \<open>length\<close> of the object \<open>getData\<close> returns are \<open>values_out\<close>, \<open>times_out\<close> and
  \<open>length_out\<close>.
\<close>

record CircularBuffer =
  buffer :: "real list"
  timeBuffer :: "real list"
  writeIndex :: "nat option"
  size_buf :: nat
  isFull :: bool

record BufferData =
  values_out :: "real list"
  times_out :: "real list"
  length_out :: "nat option"

definition js_mod :: "nat option \<Rightarrow> nat \<Rightarrow> nat option" where
  "js_mod a b = (case a of None \<Rightarrow> None | Some n \<Rightarrow> if b = 0 then None else Some (n mod b))"

definition js_succ :: "nat option \<Rightarrow> nat option" where
  "js_succ a = map_option Suc a"

definition typed_set :: "real list \<Rightarrow> nat option \<Rightarrow> real \<Rightarrow> real list" where
  "typed_set xs i v = (case i of None \<Rightarrow> xs | Some k \<Rightarrow> if k < length xs then xs[k := v] else xs)"

text \<open>
  A read at \<open>NaN\<close> or past the end gives \<open>undefined\<close>, which a \<open>Float32Array\<close> stores as
  \<open>NaN\<close>; the reals have no such element and the model puts 0 there. The loop of \<open>getData\<close>
  never reads there (\<open>getData_reads_in_range\<close> below).
\<close>

definition typed_get :: "real list \<Rightarrow> nat option \<Rightarrow> real" where
  "typed_get xs i = (case i of None \<Rightarrow> 0 | Some k \<Rightarrow> if k < length xs then xs ! k else 0)"

definition CircularBuffer_new :: "nat \<Rightarrow> CircularBuffer" where
  "CircularBuffer_new n =
     \<lparr>buffer = replicate n 0, timeBuffer = replicate n 0, writeIndex = Some 0,
      size_buf = n, isFull = False\<rparr>"

definition push :: "(real \<Rightarrow> real) \<Rightarrow> real \<Rightarrow> real \<Rightarrow> CircularBuffer \<Rightarrow> CircularBuffer" where
  "push fround v t b =
     (let w' = js_mod (js_succ (writeIndex b)) (size_buf b)
      in b\<lparr>buffer := typed_set (buffer b) (writeIndex b) (fround v),
            timeBuffer := typed_set (timeBuffer b) (writeIndex b) (fround t),
            writeIndex := w',
            isFull := (if w' = Some 0 then True else isFull b)\<rparr>)"

definition js_add :: "nat option \<Rightarrow> nat \<Rightarrow> nat option" where
  "js_add a i = map_option (\<lambda>n. n + i) a"

definition getData :: "CircularBuffer \<Rightarrow> BufferData" where
  "getData b =
     (let len = (if isFull b then Some (size_buf b) else writeIndex b)
      in if isFull b then
           \<lparr>values_out = map (\<lambda>i. typed_get (buffer b) (js_mod (js_add (writeIndex b) i) (size_buf b)))
                             [0..<size_buf b],
            times_out = map (\<lambda>i. typed_get (timeBuffer b) (js_mod (js_add (writeIndex b) i) (size_buf b)))
                             [0..<size_buf b],
            length_out = len\<rparr>
         else
           \<lparr>values_out = take (case len of None \<Rightarrow> 0 | Some l \<Rightarrow> l) (buffer b),
            times_out = take (case len of None \<Rightarrow> 0 | Some l \<Rightarrow> l) (timeBuffer b),
            length_out = len\<rparr>)"

definition clear :: "CircularBuffer \<Rightarrow> CircularBuffer" where
  "clear b = b\<lparr>writeIndex := Some 0, isFull := False\<rparr>"

text \<open>
  \<open>Math.fround\<close>, the rounding of a store into a \<open>Float32Array\<close>: the nearest number with
  24 significant bits, a tie going to the even significand; the exponent is at least
  \<open>-126\<close> (below it the spacing stays \<open>2^-149\<close>). A number too large for single precision
  is stored as \<open>Infinity\<close>, which the reals do not have: there the model rounds on.
\<close>

definition round_half_even :: "real \<Rightarrow> int" where
  "round_half_even x =
     (let f = \<lfloor>x\<rfloor>
      in if x - of_int f < 1 / 2 then f
         else if 1 / 2 < x - of_int f then f + 1
         else if even f then f else f + 1)"

definition Math_fround :: "real \<Rightarrow> real" where
  "Math_fround x =
     (if x = 0 then 0
      else let e = max (- 126) \<lfloor>log 2 \<bar>x\<bar>\<rfloor>;
               ulp = 2 powr (of_int e - 23)
           in of_int (round_half_even (x / ulp)) * ulp)"

text \<open>A sequence of pushes, first to last, and the pairs a snapshot holds.\<close>

definition pushes :: "(real \<Rightarrow> real) \<Rightarrow> (real \<times> real) list \<Rightarrow> CircularBuffer \<Rightarrow> CircularBuffer" where
  "pushes fround ps b = fold (\<lambda>(v, t) b'. push fround v t b') ps b"

definition stored :: "(real \<Rightarrow> real) \<Rightarrow> real \<times> real \<Rightarrow> real \<times> real" where
  "stored fround p = (fround (fst p), fround (snd p))"

definition pairs_out :: "BufferData \<Rightarrow> (real \<times> real) list" where
  "pairs_out d = zip (values_out d) (times_out d)"

text \<open>
  The state of a buffer of capacity \<open>c\<close> right after the constructor, and right after
  \<open>clear\<close>: the arrays have their length, whatever they hold.
\<close>

definition fresh :: "nat \<Rightarrow> CircularBuffer \<Rightarrow> bool" where
  "fresh c b = (size_buf b = c \<and> length (buffer b) = c \<and> length (timeBuffer b) = c \<and>
                writeIndex b = Some 0 \<and> \<not> isFull b)"

section \<open>WaveformChart: level-of-detail sampling (client)\<close>

text \<open>
  The numbers of the sampling code are JavaScript numbers that hold array lengths and
  steps: a natural number, \<open>Infinity\<close> (a positive length divided by 0) or \<open>NaN\<close> (0 divided
  by 0). \<open>Some (enat n)\<close> is the number \<open>n\<close>, \<open>Some \<infinity>\<close> is \<open>Infinity\<close>, \<open>None\<close> is \<open>NaN\<close>.
  A target point count is a quotient such as \<open>maxPoints / 4\<close>: a rational number.
\<close>

type_synonym jsnum = "enat option"

definition js_plus :: "jsnum \<Rightarrow> jsnum \<Rightarrow> jsnum" where
  "js_plus a b = (case a of None \<Rightarrow> None | Some x \<Rightarrow> (case b of None \<Rightarrow> None | Some y \<Rightarrow> Some (x + y)))"

definition js_less_nat :: "jsnum \<Rightarrow> nat \<Rightarrow> bool" where
  "js_less_nat a n = (case a of None \<Rightarrow> False | Some x \<Rightarrow> x < enat n)"

definition js_index :: "jsnum \<Rightarrow> nat" where
  "js_index a = (case a of None \<Rightarrow> 0 | Some x \<Rightarrow> the_enat x)"

text \<open>\<open>Math.max(1, Math.floor(n / t))\<close> for an array length \<open>n\<close>.\<close>

definition max1_floor_div :: "nat \<Rightarrow> rat \<Rightarrow> jsnum" where
  "max1_floor_div n t =
     (if t = 0 then (if n = 0 then None else Some \<infinity>)
      else Some (enat (nat (max 1 \<lfloor>of_nat n / t\<rfloor>))))"

definition calculateOptimalStep :: "nat \<Rightarrow> rat \<Rightarrow> jsnum" where
  "calculateOptimalStep dataLength targetPoints =
     (if of_nat dataLength \<le> targetPoints then Some 1
      else max1_floor_div dataLength targetPoints)"

text \<open>
  The loop \<open>for (let i = 0; i < xs.length; i += step) out.push(xs[i])\<close>, which keeps the
  points of \<open>xs\<close> at the indices \<open>0, step, 2 * step, ...\<close>; each kept point is returned with
  its index (the chart's time axis is computed from it). With \<open>step = 0\<close> the loop does not
  end: the result is \<open>None\<close>.
\<close>

partial_function (option) sample_loop ::
  "jsnum \<Rightarrow> jsnum \<Rightarrow> 'a list \<Rightarrow> (nat \<times> 'a) list \<Rightarrow> (nat \<times> 'a) list option" where
  "sample_loop i step xs acc =
     (if js_less_nat i (length xs)
      then sample_loop (js_plus i step) step xs (acc @ [(js_index i, xs ! js_index i)])
      else Some acc)"

declare sample_loop.simps [code]

definition lod_sample :: "jsnum \<Rightarrow> 'a list \<Rightarrow> (nat \<times> 'a) list option" where
  "lod_sample step xs = sample_loop (Some 0) step xs []"

text \<open>
  \<open>convertDataToPlot\<close> of \<open>components/WaveformChart.tsx\<close>: one trace for each of the first
  \<open>min(channels, rawData.length)\<close> channels that is not empty, sampled with the step
  \<open>Math.max(1, Math.floor(channelData.length / maxPoints))\<close>.
\<close>

fun convertDataToPlot_traces :: "rat \<Rightarrow> 'a list list \<Rightarrow> (nat \<times> 'a) list list option" where
  "convertDataToPlot_traces maxPoints [] = Some []"
| "convertDataToPlot_traces maxPoints (channelData # rest) =
     (if channelData = [] then convertDataToPlot_traces maxPoints rest
      else (case lod_sample (max1_floor_div (length channelData) maxPoints) channelData of
              None \<Rightarrow> None
            | Some trace \<Rightarrow> map_option ((#) trace) (convertDataToPlot_traces maxPoints rest)))"

definition convertDataToPlot :: "nat \<Rightarrow> rat \<Rightarrow> 'a list list \<Rightarrow> (nat \<times> 'a) list list option" where
  "convertDataToPlot channels maxPoints rawData =
     convertDataToPlot_traces maxPoints (take (min channels (length rawData)) rawData)"

text \<open>
  The two steps of the buffered \<open>convertDataToPlot\<close>: new samples are thinned with the
  target \<open>maxPoints / 4\<close> before they enter the circular buffer, and the buffer's contents
  with the target \<open>maxPoints / channels\<close> before they are drawn (\<open>channels\<close> is at least 1
  inside the loop over the channels).
\<close>

definition insertStep :: "nat \<Rightarrow> rat \<Rightarrow> jsnum" where
  "insertStep dataLength maxPoints = calculateOptimalStep dataLength (maxPoints / 4)"

definition displayStep :: "nat \<Rightarrow> rat \<Rightarrow> nat \<Rightarrow> jsnum" where
  "displayStep bufferLength maxPoints channels =
     max1_floor_div bufferLength (maxPoints / of_nat channels)"


section \<open>PerformanceMonitorService: the metrics record\<close>

text \<open>
  \<open>long\<close> counters are 64-bit words, the \<open>double\<close> latency statistics are real numbers and
  \<open>DateTime\<close> values are integers (ticks). \<open>LatencyDistribution\<close> is the array \<open>new long[6]\<close>,
  created once and never replaced.
\<close>

record PerformanceMetrics =
  StartTime :: int
  LastUpdateTime :: int
  TotalBytesSent :: "64 word"
  TotalPacketsSent :: "64 word"
  LatencyCount :: "64 word"
  LatencySum :: real
  MinLatency :: real
  MaxLatency :: real
  LatencyDistribution :: "64 word list"

definition PerformanceMetrics_new :: "int \<Rightarrow> PerformanceMetrics" where
  "PerformanceMetrics_new now =
     \<lparr>StartTime = now, LastUpdateTime = now, TotalBytesSent = 0, TotalPacketsSent = 0,
      LatencyCount = 0, LatencySum = 0, MinLatency = 0, MaxLatency = 0,
      LatencyDistribution = replicate 6 0\<rparr>"

text \<open>\<open>RecordDataSent\<close> on one metrics object (\<open>bytes\<close> is an \<open>int\<close>, widened to \<open>long\<close>).\<close>

definition RecordDataSent :: "32 word \<Rightarrow> int \<Rightarrow> PerformanceMetrics \<Rightarrow> PerformanceMetrics" where
  "RecordDataSent bytes now m =
     m\<lparr>TotalBytesSent := TotalBytesSent m + scast bytes,
       TotalPacketsSent := TotalPacketsSent m + 1,
       LastUpdateTime := now\<rparr>"

text \<open>The bucket of the \<open>if\<close> chain of \<open>UpdateLatencyStats\<close>.\<close>

definition latency_bucket :: "real \<Rightarrow> nat" where
  "latency_bucket latencyMs =
     (if latencyMs \<le> 1 then 0
      else if latencyMs \<le> 5 then 1
      else if latencyMs \<le> 10 then 2
      else if latencyMs \<le> 50 then 3
      else if latencyMs \<le> 100 then 4
      else 5)"

definition UpdateLatencyStats :: "real \<Rightarrow> PerformanceMetrics \<Rightarrow> PerformanceMetrics" where
  "UpdateLatencyStats latencyMs m =
     m\<lparr>LatencyCount := LatencyCount m + 1,
       LatencySum := LatencySum m + latencyMs,
       MinLatency := (if latencyMs < MinLatency m \<or> MinLatency m = 0 then latencyMs
                      else MinLatency m),
       MaxLatency := (if latencyMs > MaxLatency m then latencyMs else MaxLatency m),
       LatencyDistribution :=
         (LatencyDistribution m)[latency_bucket latencyMs :=
            LatencyDistribution m ! latency_bucket latencyMs + 1]\<rparr>"

text \<open>
  \<open>Reset\<close> is a sequence of writes to fields that other threads read. The two
  \<open>Interlocked.Exchange\<close> calls and the last assignment are single atomic writes; the five
  writes in between are made while \<open>Reset\<close> holds \<open>LatencyLock\<close>. Each write is listed with
  whether \<open>Reset\<close> still holds the lock after it.
\<close>

definition Reset_writes :: "int \<Rightarrow> ((PerformanceMetrics \<Rightarrow> PerformanceMetrics) \<times> bool) list" where
  "Reset_writes now =
     [(\<lambda>m. m\<lparr>TotalBytesSent := 0\<rparr>, False),
      (\<lambda>m. m\<lparr>TotalPacketsSent := 0\<rparr>, False),
      (\<lambda>m. m\<lparr>LatencyCount := 0\<rparr>, True),
      (\<lambda>m. m\<lparr>LatencySum := 0\<rparr>, True),
      (\<lambda>m. m\<lparr>MinLatency := 0\<rparr>, True),
      (\<lambda>m. m\<lparr>MaxLatency := 0\<rparr>, True),
      (\<lambda>m. m\<lparr>LatencyDistribution := map (\<lambda>x. 0) (LatencyDistribution m)\<rparr>, False),
      (\<lambda>m. m\<lparr>LastUpdateTime := now\<rparr>, False)]"

text \<open>The state when \<open>Reset\<close> returns.\<close>

definition Reset :: "int \<Rightarrow> PerformanceMetrics \<Rightarrow> PerformanceMetrics" where
  "Reset now m = fold (\<lambda>w m'. fst w m') (Reset_writes now) m"

text \<open>
  The states of the object while \<open>Reset\<close> runs, in order: the state before the first write
  and the state after each write, each with whether \<open>Reset\<close> holds the lock in it. A thread
  that reads fields without the lock (as \<open>GetMetricsSnapshot\<close> reads the two counters) can
  see any of them; a thread that reads inside \<open>lock (LatencyLock)\<close> sees only those in
  which \<open>Reset\<close> does not hold the lock.
\<close>

fun states_during :: "(('s \<Rightarrow> 's) \<times> bool) list \<Rightarrow> 's \<Rightarrow> ('s \<times> bool) list" where
  "states_during [] s = []"
| "states_during (w # ws) s = (fst w s, snd w) # states_during ws (fst w s)"

definition Reset_states :: "int \<Rightarrow> PerformanceMetrics \<Rightarrow> (PerformanceMetrics \<times> bool) list" where
  "Reset_states now m = (m, False) # states_during (Reset_writes now) m"

definition seen_without_lock :: "int \<Rightarrow> PerformanceMetrics \<Rightarrow> PerformanceMetrics list" where
  "seen_without_lock now m = map fst (Reset_states now m)"

definition seen_under_lock :: "int \<Rightarrow> PerformanceMetrics \<Rightarrow> PerformanceMetrics list" where
  "seen_under_lock now m = map fst (filter (\<lambda>s. \<not> snd s) (Reset_states now m))"

text \<open>The latency statistics of a metrics object, and the whole of what \<open>Reset\<close> clears.\<close>

definition latency_stats :: "PerformanceMetrics \<Rightarrow> 64 word \<times> real \<times> real \<times> real \<times> 64 word list" where
  "latency_stats m = (LatencyCount m, LatencySum m, MinLatency m, MaxLatency m, LatencyDistribution m)"

definition all_cleared :: "PerformanceMetrics \<Rightarrow> bool" where
  "all_cleared m = (TotalBytesSent m = 0 \<and> TotalPacketsSent m = 0 \<and>
     latency_stats m = (0, 0, 0, 0, replicate 6 0))"

section \<open>mockDataGenerator.ts: the client's generator and streamer\<close>

datatype WaveformType = sine | square | triangle | noise_wave | mixed

record MockConfig =
  channels :: nat
  sampleRate :: real
  bufferSize :: nat
  waveformType :: WaveformType
  amplitude_cfg :: real
  frequency :: real
  noiseLevel :: real

text \<open>
  \<open>generateSample(time, channel)\<close>; \<open>u\<close> is the value \<open>Math.random()\<close> returns in the
  \<open>'noise'\<close> case. (The field \<open>amplitude\<close> is \<open>amplitude_cfg\<close>, the case \<open>'noise'\<close> is
  \<open>noise_wave\<close>.)
\<close>

definition generateSample :: "MockConfig \<Rightarrow> real \<Rightarrow> real \<Rightarrow> nat \<Rightarrow> real" where
  "generateSample cfg u time channel =
     (let channelFreq = frequency cfg * (1 + real channel * 0.1);
          phase = 2 * pi * channelFreq * time
      in case waveformType cfg of
           sine \<Rightarrow> amplitude_cfg cfg * sin phase
         | square \<Rightarrow> amplitude_cfg cfg * sgn (sin phase)
         | triangle \<Rightarrow> amplitude_cfg cfg * (2 / pi) * arcsin (sin phase)
         | noise_wave \<Rightarrow> amplitude_cfg cfg * (u - 0.5) * 2
         | mixed \<Rightarrow> amplitude_cfg cfg * (0.6 * sin phase + 0.3 * sin (2 * phase) + 0.1 * sin (3 * phase)))"

text \<open>
  The interval of \<open>HighPerformanceStreamer\<close>, for a target in MB/s:
  \<open>Math.max(8, 1000 / chunksPerSecond)\<close>. \<open>None\<close> where the result is \<open>Infinity\<close> or \<open>NaN\<close>
  (a target of 0).
\<close>

definition bytesPerChunk_mock :: "MockConfig \<Rightarrow> real" where
  "bytesPerChunk_mock cfg = real (channels cfg) * real (bufferSize cfg) * 2"

definition chunkInterval :: "MockConfig \<Rightarrow> real \<Rightarrow> real option" where
  "chunkInterval cfg targetDataRateMBps =
     (if targetDataRateMBps * 1024 * 1024 = 0 then None
      else if bytesPerChunk_mock cfg = 0 then Some 8
      else Some (max 8 (1000 / (targetDataRateMBps * 1024 * 1024 / bytesPerChunk_mock cfg))))"

section \<open>Concrete inputs\<close>

definition svc0 :: DAQDataService where
  "svc0 = \<lparr>sessions = Map.empty, subscribers = [], globalDataGeneration = False\<rparr>"

definition svc_started :: DAQDataService where
  "svc_started = \<lparr>sessions = Map.empty, subscribers = [], globalDataGeneration = True\<rparr>"

definition request_1ch :: DataRequest where
  "request_1ch = \<lparr>Channels = 1, SampleRate = 1000, BufferSize = 4, Config = []\<rparr>"

definition svc_streaming :: DAQDataService where
  "svc_streaming =
     \<lparr>sessions = [''client-1'' \<mapsto>
         \<lparr>ClientId = ''client-1'', Request = request_1ch,
          CancellationRequested = False, IsActive = True\<rparr>],
      subscribers = [''client-1''], globalDataGeneration = True\<rparr>"

definition no_Message :: "exn \<Rightarrow> string" where
  "no_Message ex = []"

definition request_0ch :: DataRequest where
  "request_0ch = \<lparr>Channels = 0, SampleRate = 1000, BufferSize = 4, Config = []\<rparr>"

definition chunk77 :: DataChunk where
  "chunk77 = \<lparr>Payload = [], Seq = 77, TickNs = 5, Tags = []\<rparr>"

definition attempt_chunk :: attempt where
  "attempt_chunk = \<lparr>arrived = [chunk77], utc_now_ns = 1000, write_error = None\<rparr>"

definition attempt_empty :: attempt where
  "attempt_empty = \<lparr>arrived = [], utc_now_ns = 2000, write_error = None\<rparr>"

definition long_schedule :: "attempt list" where
  "long_schedule = concat (replicate 4294967297 [attempt_chunk, attempt_empty])"

definition halve :: "real \<Rightarrow> real" where
  "halve x = x / 2"

definition metrics_busy :: PerformanceMetrics where
  "metrics_busy =
     UpdateLatencyStats 3 (RecordDataSent 800 20 (RecordDataSent 800 10 (PerformanceMetrics_new 0)))"

definition request_sine :: DataRequest where
  "request_sine = \<lparr>Channels = 1, SampleRate = 1000, BufferSize = 4,
     Config = [(''waveformType'', ''sine''), (''amplitude'', ''1''), (''frequency'', ''250'')]\<rparr>"

definition request_2ch :: DataRequest where
  "request_2ch = \<lparr>Channels = 2, SampleRate = 1000, BufferSize = 1000, Config = []\<rparr>"

definition request_huge :: DataRequest where
  "request_huge = \<lparr>Channels = 1, SampleRate = 1, BufferSize = 2147483648, Config = []\<rparr>"

definition mid_noise :: "nat \<Rightarrow> nat \<Rightarrow> real" where
  "mid_noise sample channel = 1 / 2"

definition config_sine :: MockConfig where
  "config_sine = \<lparr>channels = 1, sampleRate = 1000, bufferSize = 4, waveformType = sine,
     amplitude_cfg = 1, frequency = 250, noiseLevel = 0\<rparr>"

definition config_69846H :: MockConfig where
  "config_69846H = \<lparr>channels = 4, sampleRate = 40000000, bufferSize = 100000,
     waveformType = mixed, amplitude_cfg = 1, frequency = 1000, noiseLevel = 0.05\<rparr>"

section \<open>The transport loop numbers the chunks it writes\<close>

lemma TryDequeue_step_inv:
  assumes "TryDequeue_step t a st = Inr st'"
    and "sequenceNumber st = word_of_nat (length (written st))"
    and "\<forall>n < length (written st). Seq (written st ! n) = word_of_nat n"
  shows "sequenceNumber st' = word_of_nat (length (written st')) \<and>
         (\<forall>n < length (written st'). Seq (written st' ! n) = word_of_nat n)"
  using assms
  by (auto simp: TryDequeue_step_def nth_append less_Suc_eq
      split: list.splits if_splits option.splits)

lemma transport_loop_inv:
  assumes "transport_loop t sched st = (ex, st')"
    and "sequenceNumber st = word_of_nat (length (written st))"
    and "\<forall>n < length (written st). Seq (written st ! n) = word_of_nat n"
  shows "sequenceNumber st' = word_of_nat (length (written st')) \<and>
         (\<forall>n < length (written st'). Seq (written st' ! n) = word_of_nat n)"
  using assms
proof (induction sched arbitrary: st)
  case Nil
  then show ?case by simp
next
  case (Cons a sched)
  show ?case
  proof (cases "TryDequeue_step t a st")
    case (Inl e)
    with Cons.prems show ?thesis by simp
  next
    case (Inr st1)
    from TryDequeue_step_inv[OF Inr Cons.prems(2,3)] Cons.IH[of st1] Cons.prems(1) Inr
    show ?thesis by simp
  qed
qed

lemma transport_loop_seq:
  assumes "n < length (written (snd (transport_loop t sched transport_init)))"
  shows "Seq (written (snd (transport_loop t sched transport_init)) ! n) = word_of_nat n"
proof -
  obtain ex st' where r: "transport_loop t sched transport_init = (ex, st')"
    by (cases "transport_loop t sched transport_init")
  from transport_loop_inv[OF r] assms r show ?thesis
    by (simp add: transport_init_def)
qed

lemma TryDequeue_step_tick:
  assumes "TryDequeue_step t a st = Inr st'"
    and "\<forall>c \<in> set (written st). TickNs c \<in> T"
    and "word_of_int (t + utc_now_ns a) \<in> T"
  shows "\<forall>c \<in> set (written st'). TickNs c \<in> T"
  using assms
  by (auto simp: TryDequeue_step_def split: list.splits if_splits option.splits)

lemma transport_loop_tick:
  assumes "transport_loop t sched st = (ex, st')"
    and "\<forall>c \<in> set (written st). TickNs c \<in> T"
    and "\<forall>a \<in> set sched. word_of_int (t + utc_now_ns a) \<in> T"
  shows "\<forall>c \<in> set (written st'). TickNs c \<in> T"
  using assms
proof (induction sched arbitrary: st)
  case Nil
  then show ?case by simp
next
  case (Cons a sched)
  show ?case
  proof (cases "TryDequeue_step t a st")
    case (Inl e)
    with Cons.prems show ?thesis by simp
  next
    case (Inr st1)
    have "\<forall>c \<in> set (written st1). TickNs c \<in> T"
      using TryDequeue_step_tick[OF Inr Cons.prems(2)] Cons.prems(3) by simp
    with Cons.IH[of st1] Cons.prems(1,3) Inr show ?thesis by simp
  qed
qed

lemma Subscribe_written_eq:
  "Subscribe_written m r cid t sched svc =
     (if Channels r = 0 \<or> SampleRate r = 0 \<or> BufferSize r = 0 then []
      else written (snd (transport_loop t sched transport_init)))"
  by (simp add: Subscribe_written_def Subscribe_def Subscribe_try_def Let_def split: prod.splits)

lemma Subscribe_written_seq:
  assumes "n < length (Subscribe_written m r cid t sched svc)"
  shows "Seq (Subscribe_written m r cid t sched svc ! n) = word_of_nat n"
  using assms transport_loop_seq[of n t sched]
  by (simp add: Subscribe_written_eq split: if_splits)

lemma Subscribe_written_tick:
  assumes "n < length (Subscribe_written m r cid t sched svc)"
  shows "\<exists>a \<in> set sched. TickNs (Subscribe_written m r cid t sched svc ! n)
           = word_of_int (t + utc_now_ns a)"
proof -
  let ?T = "(\<lambda>a. (word_of_int (t + utc_now_ns a) :: uint64)) ` set sched"
  obtain ex st' where r: "transport_loop t sched transport_init = (ex, st')"
    by (cases "transport_loop t sched transport_init")
  have "\<forall>c \<in> set (written st'). TickNs c \<in> ?T"
    by (rule transport_loop_tick[OF r]) (simp_all add: transport_init_def)
  moreover have "Subscribe_written m r cid t sched svc ! n \<in> set (written st')"
    using assms r by (auto simp: Subscribe_written_eq split: if_splits)
  ultimately show ?thesis by auto
qed

lemma pair_rounds:
  assumes "dataQueue st = []" "chunksSent st = 0"
  shows "fst (transport_loop t (concat (replicate n [attempt_chunk, attempt_empty])) st) = None \<and>
         dataQueue (snd (transport_loop t (concat (replicate n [attempt_chunk, attempt_empty])) st)) = [] \<and>
         chunksSent (snd (transport_loop t (concat (replicate n [attempt_chunk, attempt_empty])) st)) = 0 \<and>
         length (written (snd (transport_loop t (concat (replicate n [attempt_chunk, attempt_empty])) st)))
           = length (written st) + n"
  using assms
proof (induction n arbitrary: st)
  case 0
  then show ?case by simp
next
  case (Suc n)
  have "\<exists>st2. transport_loop t (concat (replicate (Suc n) [attempt_chunk, attempt_empty])) st
       = transport_loop t (concat (replicate n [attempt_chunk, attempt_empty])) st2 \<and>
       dataQueue st2 = [] \<and> chunksSent st2 = 0 \<and> length (written st2) = Suc (length (written st))"
    using Suc.prems
    apply (simp add: TryDequeue_step_def attempt_chunk_def attempt_empty_def)
    apply (rule exI, rule conjI, rule refl)
    apply simp
    done
  then obtain st2 where
    step: "transport_loop t (concat (replicate (Suc n) [attempt_chunk, attempt_empty])) st
       = transport_loop t (concat (replicate n [attempt_chunk, attempt_empty])) st2"
    and st2: "dataQueue st2 = []" "chunksSent st2 = 0" "length (written st2) = Suc (length (written st))"
    by blast
  show ?case unfolding step using Suc.IH[OF st2(1,2)] st2(3) by simp
qed

lemma long_schedule_length:
  "length (Subscribe_written no_Message request_1ch ''client'' 0 long_schedule svc0) = 4294967297"
  using pair_rounds[of transport_init 0 4294967297]
  by (simp add: Subscribe_written_eq request_1ch_def long_schedule_def transport_init_def)

text \<open>
  C2 (as amended). The chunks a \<open>Subscribe\<close> call writes carry, in the order they are
  written, the sequence numbers \<open>0, 1, 2, ...\<close> counted in the 32-bit \<open>seq\<close> field: the
  chunk at position \<open>n\<close> (counted from 0) has \<open>seq = n mod 2^32\<close>, whatever \<open>seq\<close> the
  generator gave it, and its \<open>tick_ns\<close> is the start time plus a clock reading of the
  transport loop. Among the first \<open>2^32\<close> chunks the number is \<open>n\<close> itself and no two
  chunks share one.
\<close>

theorem Subscribe_seq_in_write_order:
  assumes "n < length (Subscribe_written m r cid t sched svc)"
  shows "Seq (Subscribe_written m r cid t sched svc ! n) = word_of_nat n \<and>
         unat (Seq (Subscribe_written m r cid t sched svc ! n)) = n mod 2 ^ 32 \<and>
         (n < 2 ^ 32 \<longrightarrow>
            unat (Seq (Subscribe_written m r cid t sched svc ! n)) = n \<and>
            (\<forall>i < n. Seq (Subscribe_written m r cid t sched svc ! i)
                      \<noteq> Seq (Subscribe_written m r cid t sched svc ! n))) \<and>
         (\<exists>a \<in> set sched. TickNs (Subscribe_written m r cid t sched svc ! n)
            = word_of_int (t + utc_now_ns a))"
proof (intro conjI impI allI)
  show s: "Seq (Subscribe_written m r cid t sched svc ! n) = word_of_nat n"
    by (rule Subscribe_written_seq[OF assms])
  show "unat (Seq (Subscribe_written m r cid t sched svc ! n)) = n mod 2 ^ 32"
    by (simp add: s unat_of_nat)
  show "\<exists>a \<in> set sched. TickNs (Subscribe_written m r cid t sched svc ! n)
           = word_of_int (t + utc_now_ns a)"
    by (rule Subscribe_written_tick[OF assms])
next
  assume b: "n < 2 ^ 32"
  have s: "Seq (Subscribe_written m r cid t sched svc ! n) = word_of_nat n"
    by (rule Subscribe_written_seq[OF assms])
  show u: "unat (Seq (Subscribe_written m r cid t sched svc ! n)) = n"
    using b by (simp add: s unat_of_nat)
  fix i assume i: "i < n"
  then have "Seq (Subscribe_written m r cid t sched svc ! i) = word_of_nat i"
    using assms by (intro Subscribe_written_seq) simp
  then have "unat (Seq (Subscribe_written m r cid t sched svc ! i)) = i"
    using i b by (simp add: unat_of_nat)
  with u i show "Seq (Subscribe_written m r cid t sched svc ! i)
                    \<noteq> Seq (Subscribe_written m r cid t sched svc ! n)"
    by auto
qed

theorem Subscribe_seq_in_write_order_witness:
  "Seq (Subscribe_written no_Message request_1ch ''client'' 0
          [attempt_chunk, attempt_chunk, attempt_empty] svc0 ! 1) = 1 \<and>
   Seq (Subscribe_written no_Message request_1ch ''client'' 0
          [attempt_chunk, attempt_chunk, attempt_empty] svc0 ! 0) \<noteq> 1 \<and>
   TickNs (Subscribe_written no_Message request_1ch ''client'' 0
          [attempt_chunk, attempt_chunk, attempt_empty] svc0 ! 1) = 1000"
proof -
  have len: "1 < length (Subscribe_written no_Message request_1ch ''client'' 0
          [attempt_chunk, attempt_chunk, attempt_empty] svc0)"
    by (simp add: Subscribe_written_eq request_1ch_def transport_init_def TryDequeue_step_def
        attempt_chunk_def attempt_empty_def)
  have tick: "TickNs (Subscribe_written no_Message request_1ch ''client'' 0
          [attempt_chunk, attempt_chunk, attempt_empty] svc0 ! 1) = 1000"
    by (simp add: Subscribe_written_eq request_1ch_def transport_init_def TryDequeue_step_def
        attempt_chunk_def attempt_empty_def)
  from Subscribe_seq_in_write_order[OF len] tick show ?thesis by auto
qed

text \<open>
  The claim as stated (the \<open>n\<close>-th chunk has \<open>seq = n - 1\<close>, without repeats) fails once
  the 32-bit counter wraps: in a stream of \<open>2^32 + 1\<close> written chunks the last one has
  \<open>seq = 0\<close>, the number of the first.
\<close>

theorem Subscribe_seq_wraps:
  "length (Subscribe_written no_Message request_1ch ''client'' 0 long_schedule svc0) = 4294967297 \<and>
   unat (Seq (Subscribe_written no_Message request_1ch ''client'' 0 long_schedule svc0 ! 4294967296))
     \<noteq> 4294967296 \<and>
   Seq (Subscribe_written no_Message request_1ch ''client'' 0 long_schedule svc0 ! 4294967296)
     = Seq (Subscribe_written no_Message request_1ch ''client'' 0 long_schedule svc0 ! 0)"
proof -
  have a: "Seq (Subscribe_written no_Message request_1ch ''client'' 0 long_schedule svc0 ! 4294967296)
        = word_of_nat 4294967296"
    by (rule Subscribe_written_seq) (simp add: long_schedule_length)
  have b: "Seq (Subscribe_written no_Message request_1ch ''client'' 0 long_schedule svc0 ! 0)
        = word_of_nat 0"
    by (rule Subscribe_written_seq) (simp add: long_schedule_length)
  show ?thesis by (simp add: a b long_schedule_length)
qed

section \<open>Control and the validation of Subscribe\<close>

lemma Control_dispatch_known:
  "c \<in> set known_commands \<Longrightarrow> fst (Control_dispatch c svc)"
  by (auto simp: Control_dispatch_def known_commands_def
      StartGlobalDataGeneration_def StopGlobalDataGeneration_def PauseGlobalDataGeneration_def
      ResumeGlobalDataGeneration_def ResetGlobalDataGeneration_def)

lemma Control_dispatch_unknown:
  "c \<notin> set known_commands \<Longrightarrow> Control_dispatch c svc = (False, svc)"
  by (simp add: Control_dispatch_def known_commands_def)

lemma Control_Success:
  "Success (fst (Control request now_ms svc)) = fst (Control_dispatch (Cmd request) svc)"
  by (simp add: Control_def split: prod.splits)

lemma Control_Message:
  "Message (fst (Control request now_ms svc)) =
     msg_command @ Command_ToString (Cmd request) @
       (if fst (Control_dispatch (Cmd request) svc) then msg_succeeded else msg_failed)"
  by (simp add: Control_def split: prod.splits)

lemma stopped_sessions_fixed:
  assumes "\<forall>c session. sessions svc c = Some session \<longrightarrow>
             \<not> IsActive session \<and> CancellationRequested session"
  shows "(\<lambda>c. map_option (\<lambda>session. session\<lparr>IsActive := False, CancellationRequested := True\<rparr>)
            (sessions svc c)) = sessions svc"
proof
  fix c
  show "map_option (\<lambda>session. session\<lparr>IsActive := False, CancellationRequested := True\<rparr>)
            (sessions svc c) = sessions svc c"
  proof (cases "sessions svc c")
    case None
    then show ?thesis by simp
  next
    case (Some s)
    with assms have "\<not> IsActive s \<and> CancellationRequested s" by blast
    then have "s\<lparr>IsActive := False, CancellationRequested := True\<rparr> = s" by simp
    with Some show ?thesis by simp
  qed
qed

lemma Control_state:
  "snd (Control request now_ms svc) = snd (Control_dispatch (Cmd request) svc)"
  by (simp add: Control_def split: prod.splits)

lemma commands_distinct:
  "Command_Start \<noteq> Command_Stop" "Command_Start \<noteq> Command_Pause" "Command_Start \<noteq> Command_Resume"
  "Command_Start \<noteq> Command_Reset" "Command_Stop \<noteq> Command_Pause" "Command_Stop \<noteq> Command_Resume"
  "Command_Stop \<noteq> Command_Reset" "Command_Pause \<noteq> Command_Resume" "Command_Pause \<noteq> Command_Reset"
  "Command_Resume \<noteq> Command_Reset"
  by (simp_all add: Command_Start_def Command_Stop_def Command_Pause_def
        Command_Resume_def Command_Reset_def)

lemma dispatch_Start: "Control_dispatch Command_Start svc = (True, svc\<lparr>globalDataGeneration := True\<rparr>)"
  by (simp add: Control_dispatch_def StartGlobalDataGeneration_def)

lemma dispatch_Resume: "Control_dispatch Command_Resume svc = (True, svc\<lparr>globalDataGeneration := True\<rparr>)"
  using commands_distinct
  by (simp add: Control_dispatch_def ResumeGlobalDataGeneration_def)

lemma dispatch_Pause: "Control_dispatch Command_Pause svc = (True, svc\<lparr>globalDataGeneration := False\<rparr>)"
  using commands_distinct
  by (simp add: Control_dispatch_def PauseGlobalDataGeneration_def)

lemma dispatch_Stop: "Control_dispatch Command_Stop svc = StopGlobalDataGeneration svc"
  using commands_distinct
  by (simp add: Control_dispatch_def)

lemma dispatch_Reset: "Control_dispatch Command_Reset svc = ResetGlobalDataGeneration svc"
  using commands_distinct
  by (simp add: Control_dispatch_def)

lemma Stop_state:
  "globalDataGeneration (snd (StopGlobalDataGeneration svc)) = False"
  "subscribers (snd (StopGlobalDataGeneration svc)) = subscribers svc"
  "sessions (snd (StopGlobalDataGeneration svc)) c =
     map_option (\<lambda>session. session\<lparr>IsActive := False, CancellationRequested := True\<rparr>) (sessions svc c)"
  by (simp_all add: StopGlobalDataGeneration_def)

lemma Reset_state:
  "globalDataGeneration (snd (ResetGlobalDataGeneration svc)) = True"
  "subscribers (snd (ResetGlobalDataGeneration svc)) = subscribers svc"
  "sessions (snd (ResetGlobalDataGeneration svc)) c =
     map_option (\<lambda>session. session\<lparr>IsActive := False, CancellationRequested := True\<rparr>) (sessions svc c)"
  by (simp_all add: ResetGlobalDataGeneration_def StopGlobalDataGeneration_def
        StartGlobalDataGeneration_def)

lemma Stop_noop:
  assumes "\<not> globalDataGeneration svc"
    "\<forall>c session. sessions svc c = Some session \<longrightarrow>
             \<not> IsActive session \<and> CancellationRequested session"
  shows "snd (StopGlobalDataGeneration svc) = svc"
  using assms(1) stopped_sessions_fixed[OF assms(2)]
  by (simp add: StopGlobalDataGeneration_def)

lemma Reset_noop:
  assumes "globalDataGeneration svc"
    "\<forall>c session. sessions svc c = Some session \<longrightarrow>
             \<not> IsActive session \<and> CancellationRequested session"
  shows "snd (ResetGlobalDataGeneration svc) = svc"
  using assms(1) stopped_sessions_fixed[OF assms(2)]
  by (simp add: ResetGlobalDataGeneration_def StopGlobalDataGeneration_def
        StartGlobalDataGeneration_def)

lemma Control_dispatch_idem:
  "Control_dispatch c (snd (Control_dispatch c svc)) = Control_dispatch c svc"
  by (simp add: Control_dispatch_def StartGlobalDataGeneration_def StopGlobalDataGeneration_def
      PauseGlobalDataGeneration_def ResumeGlobalDataGeneration_def ResetGlobalDataGeneration_def
      option.map_comp comp_def)

text \<open>
  C8. For each of the five named commands \<open>Control\<close> answers \<open>success = true\<close>, whatever
  the state of the service; for any other command value it answers \<open>success = false\<close>
  with the (non-empty) message that names the command and says that it failed, and leaves
  the service as it was. Each named command brings the service to its target state:
  \<open>START\<close> and \<open>RESUME\<close> set the global flag and change nothing else, \<open>PAUSE\<close> clears it
  and changes nothing else, \<open>STOP\<close> clears it and \<open>RESET\<close> sets it, both after marking every
  session inactive and cancelled, and neither touches the subscriber list. A command
  whose target state already holds succeeds and leaves the service exactly as it was:
  \<open>START\<close> or \<open>RESUME\<close> while generating, \<open>PAUSE\<close> while not generating, \<open>STOP\<close> while not
  generating with every session already cancelled, \<open>RESET\<close> while generating with every
  session already cancelled. Hence every command, issued a second time, gives the same
  answer and the same state as the first time.
\<close>

theorem Control_ack:
  "(Cmd request \<in> set known_commands \<longrightarrow>
      Success (fst (Control request now_ms svc)) \<and>
      Message (fst (Control request now_ms svc)) =
        msg_command @ Command_ToString (Cmd request) @ msg_succeeded) \<and>
   (Cmd request \<notin> set known_commands \<longrightarrow>
      \<not> Success (fst (Control request now_ms svc)) \<and>
      Message (fst (Control request now_ms svc)) =
        msg_command @ Command_ToString (Cmd request) @ msg_failed \<and>
      Message (fst (Control request now_ms svc)) \<noteq> [] \<and>
      snd (Control request now_ms svc) = svc) \<and>
   (Cmd request = Command_Start \<or> Cmd request = Command_Resume \<longrightarrow>
      snd (Control request now_ms svc) = svc\<lparr>globalDataGeneration := True\<rparr> \<and>
      (globalDataGeneration svc \<longrightarrow>
         Success (fst (Control request now_ms svc)) \<and> snd (Control request now_ms svc) = svc)) \<and>
   (Cmd request = Command_Pause \<longrightarrow>
      snd (Control request now_ms svc) = svc\<lparr>globalDataGeneration := False\<rparr> \<and>
      (\<not> globalDataGeneration svc \<longrightarrow>
         Success (fst (Control request now_ms svc)) \<and> snd (Control request now_ms svc) = svc)) \<and>
   (Cmd request = Command_Stop \<or> Cmd request = Command_Reset \<longrightarrow>
      globalDataGeneration (snd (Control request now_ms svc)) = (Cmd request = Command_Reset) \<and>
      subscribers (snd (Control request now_ms svc)) = subscribers svc \<and>
      (\<forall>c. sessions (snd (Control request now_ms svc)) c =
            map_option (\<lambda>session. session\<lparr>IsActive := False, CancellationRequested := True\<rparr>)
              (sessions svc c)) \<and>
      (globalDataGeneration svc = (Cmd request = Command_Reset) \<and>
       (\<forall>c session. sessions svc c = Some session \<longrightarrow>
           \<not> IsActive session \<and> CancellationRequested session) \<longrightarrow>
         Success (fst (Control request now_ms svc)) \<and> snd (Control request now_ms svc) = svc)) \<and>
   Success (fst (Control request later_ms (snd (Control request now_ms svc)))) =
     Success (fst (Control request now_ms svc)) \<and>
   snd (Control request later_ms (snd (Control request now_ms svc))) =
     snd (Control request now_ms svc)"
proof (intro conjI impI allI)
  assume k: "Cmd request \<in> set known_commands"
  show "Success (fst (Control request now_ms svc))"
    using Control_dispatch_known[OF k] by (simp add: Control_Success)
  show "Message (fst (Control request now_ms svc)) =
        msg_command @ Command_ToString (Cmd request) @ msg_succeeded"
    using Control_dispatch_known[OF k] by (simp add: Control_Message)
next
  assume u: "Cmd request \<notin> set known_commands"
  show "\<not> Success (fst (Control request now_ms svc))"
    by (simp add: Control_Success Control_dispatch_unknown[OF u])
  show "Message (fst (Control request now_ms svc)) =
        msg_command @ Command_ToString (Cmd request) @ msg_failed"
    by (simp add: Control_Message Control_dispatch_unknown[OF u])
  show "Message (fst (Control request now_ms svc)) \<noteq> []"
    by (simp add: Control_Message msg_command_def)
  show "snd (Control request now_ms svc) = svc"
    by (simp add: Control_state Control_dispatch_unknown[OF u])
next
  assume s: "Cmd request = Command_Start \<or> Cmd request = Command_Resume"
  then have d: "Control_dispatch (Cmd request) svc = (True, svc\<lparr>globalDataGeneration := True\<rparr>)"
    using dispatch_Start dispatch_Resume by auto
  show "snd (Control request now_ms svc) = svc\<lparr>globalDataGeneration := True\<rparr>"
    by (simp add: Control_state d)
  assume g: "globalDataGeneration svc"
  show "Success (fst (Control request now_ms svc))"
    by (simp add: Control_Success d)
  show "snd (Control request now_ms svc) = svc"
    using g by (simp add: Control_state d)
next
  assume s: "Cmd request = Command_Pause"
  have d: "Control_dispatch (Cmd request) svc = (True, svc\<lparr>globalDataGeneration := False\<rparr>)"
    using s dispatch_Pause by simp
  show "snd (Control request now_ms svc) = svc\<lparr>globalDataGeneration := False\<rparr>"
    by (simp add: Control_state d)
  assume g: "\<not> globalDataGeneration svc"
  show "Success (fst (Control request now_ms svc))"
    by (simp add: Control_Success d)
  show "snd (Control request now_ms svc) = svc"
    using g by (simp add: Control_state d)
next
  assume s: "Cmd request = Command_Stop \<or> Cmd request = Command_Reset"
  show "globalDataGeneration (snd (Control request now_ms svc)) = (Cmd request = Command_Reset)"
    using s commands_distinct
    by (auto simp: Control_state dispatch_Stop dispatch_Reset Stop_state Reset_state)
  show "subscribers (snd (Control request now_ms svc)) = subscribers svc"
    using s by (auto simp: Control_state dispatch_Stop dispatch_Reset Stop_state Reset_state)
  show "sessions (snd (Control request now_ms svc)) c =
            map_option (\<lambda>session. session\<lparr>IsActive := False, CancellationRequested := True\<rparr>)
              (sessions svc c)" for c
    using s by (auto simp: Control_state dispatch_Stop dispatch_Reset Stop_state Reset_state)
  assume h: "globalDataGeneration svc = (Cmd request = Command_Reset) \<and>
       (\<forall>c session. sessions svc c = Some session \<longrightarrow>
           \<not> IsActive session \<and> CancellationRequested session)"
  have k: "Cmd request \<in> set known_commands"
    using s by (auto simp: known_commands_def)
  show "Success (fst (Control request now_ms svc))"
    using Control_dispatch_known[OF k] by (simp add: Control_Success)
  show "snd (Control request now_ms svc) = svc"
    using s
  proof
    assume c: "Cmd request = Command_Stop"
    with h commands_distinct have "\<not> globalDataGeneration svc" by simp
    from Stop_noop[OF this] h c show ?thesis
      by (simp add: Control_state dispatch_Stop)
  next
    assume c: "Cmd request = Command_Reset"
    with h have "globalDataGeneration svc" by simp
    from Reset_noop[OF this] h c show ?thesis
      by (simp add: Control_state dispatch_Reset)
  qed
next
  show "Success (fst (Control request later_ms (snd (Control request now_ms svc)))) =
     Success (fst (Control request now_ms svc))"
    by (simp add: Control_Success Control_state Control_dispatch_idem)
  show "snd (Control request later_ms (snd (Control request now_ms svc))) =
     snd (Control request now_ms svc)"
    by (simp add: Control_state Control_dispatch_idem)
qed

theorem Control_ack_witness:
  "Success (fst (Control \<lparr>Cmd = Command_Reset, Params = []\<rparr> 1700000000000 svc0)) \<and>
   \<not> Success (fst (Control \<lparr>Cmd = 7, Params = []\<rparr> 1700000000000 svc0)) \<and>
   Message (fst (Control \<lparr>Cmd = 7, Params = []\<rparr> 1700000000000 svc0)) =
     msg_command @ ''7'' @ msg_failed \<and>
   snd (Control \<lparr>Cmd = Command_Start, Params = []\<rparr> 1700000000000 svc_started) = svc_started \<and>
   snd (Control \<lparr>Cmd = Command_Resume, Params = []\<rparr> 1700000000000 svc_started) = svc_started \<and>
   snd (Control \<lparr>Cmd = Command_Pause, Params = []\<rparr> 1700000000000 svc0) = svc0 \<and>
   snd (Control \<lparr>Cmd = Command_Stop, Params = []\<rparr> 1700000000000 svc0) = svc0 \<and>
   snd (Control \<lparr>Cmd = Command_Reset, Params = []\<rparr> 1700000000000 svc_started) = svc_started \<and>
   \<not> globalDataGeneration
       (snd (Control \<lparr>Cmd = Command_Stop, Params = []\<rparr> 1700000000000 svc_streaming)) \<and>
   sessions (snd (Control \<lparr>Cmd = Command_Stop, Params = []\<rparr> 1700000000000 svc_streaming))
       ''client-1'' =
     Some \<lparr>ClientId = ''client-1'', Request = request_1ch,
           CancellationRequested = True, IsActive = False\<rparr>"
proof -
  have k: "Cmd \<lparr>Cmd = Command_Reset, Params = []\<rparr> \<in> set known_commands"
    by (simp add: known_commands_def)
  have u: "Cmd \<lparr>Cmd = 7, Params = []\<rparr> \<notin> set known_commands"
    by (simp add: known_commands_def Command_Start_def Command_Stop_def Command_Pause_def
        Command_Resume_def Command_Reset_def)
  have t: "Command_ToString 7 = ''7''"
    by code_simp
  have e: "\<forall>c session. sessions svc0 c = Some session \<longrightarrow>
             \<not> IsActive session \<and> CancellationRequested session"
    "\<forall>c session. sessions svc_started c = Some session \<longrightarrow>
             \<not> IsActive session \<and> CancellationRequested session"
    by (simp_all add: svc0_def svc_started_def)
  have g: "\<not> globalDataGeneration svc0" "globalDataGeneration svc_started"
    by (simp_all add: svc0_def svc_started_def)
  have s: "sessions svc_streaming ''client-1'' =
      Some \<lparr>ClientId = ''client-1'', Request = request_1ch,
            CancellationRequested = False, IsActive = True\<rparr>"
    by (simp add: svc_streaming_def)
  from Control_ack[of "\<lparr>Cmd = Command_Reset, Params = []\<rparr>" 1700000000000 svc0 0] k
    Control_ack[of "\<lparr>Cmd = 7, Params = []\<rparr>" 1700000000000 svc0 0] u t
    Control_ack[of "\<lparr>Cmd = Command_Start, Params = []\<rparr>" 1700000000000 svc_started 0]
    Control_ack[of "\<lparr>Cmd = Command_Resume, Params = []\<rparr>" 1700000000000 svc_started 0]
    Control_ack[of "\<lparr>Cmd = Command_Pause, Params = []\<rparr>" 1700000000000 svc0 0]
    Control_ack[of "\<lparr>Cmd = Command_Stop, Params = []\<rparr>" 1700000000000 svc0 0]
    Control_ack[of "\<lparr>Cmd = Command_Reset, Params = []\<rparr>" 1700000000000 svc_started 0]
    Control_ack[of "\<lparr>Cmd = Command_Stop, Params = []\<rparr>" 1700000000000 svc_streaming 0]
    e g s commands_distinct
  show ?thesis by simp
qed

lemma Subscribe_rejects:
  assumes "Channels r = 0 \<or> SampleRate r = 0 \<or> BufferSize r = 0"
  shows "Subscribe_try r cid t sched svc = (Some (RpcException InvalidArgument msg_invalid_request), [], svc)"
    and "fst (Subscribe m r cid t sched svc) =
          Some (RpcException Internal
                  (msg_transfer_error @ m (RpcException InvalidArgument msg_invalid_request)))"
    and "Subscribe_written m r cid t sched svc = []"
  using assms by (simp_all add: Subscribe_written_def Subscribe_def Subscribe_try_def)

lemma Subscribe_accepts:
  assumes "Channels r \<noteq> 0" "SampleRate r \<noteq> 0" "BufferSize r \<noteq> 0"
  shows "fst (Subscribe_try r cid t sched svc) \<noteq> Some (RpcException InvalidArgument msg_invalid_request)
           \<or> (\<exists>a \<in> set sched. write_error a = Some (RpcException InvalidArgument msg_invalid_request))"
    and "sessions (snd (snd (Subscribe_try r cid t sched svc))) cid
           = Some \<lparr>ClientId = cid, Request = r, CancellationRequested = False, IsActive = True\<rparr>"
    and "cid \<in> set (subscribers (snd (snd (Subscribe_try r cid t sched svc))))"
proof -
  show "sessions (snd (snd (Subscribe_try r cid t sched svc))) cid
           = Some \<lparr>ClientId = cid, Request = r, CancellationRequested = False, IsActive = True\<rparr>"
    using assms
    by (simp add: Subscribe_try_def Let_def StartDataGeneration_def Subscribe_data_def
        split: prod.splits)
  show "cid \<in> set (subscribers (snd (snd (Subscribe_try r cid t sched svc))))"
    using assms
    by (simp add: Subscribe_try_def Let_def StartDataGeneration_def Subscribe_data_def
        split: prod.splits)
  have loop: "fst (transport_loop t sched st) = Some e \<Longrightarrow> \<exists>a \<in> set sched. write_error a = Some e"
    for st e
  proof (induction sched arbitrary: st)
    case Nil
    then show ?case by simp
  next
    case (Cons a sched)
    then show ?case
      by (cases "TryDequeue_step t a st")
        (auto simp: TryDequeue_step_def split: list.splits if_splits option.splits)
  qed
  show "fst (Subscribe_try r cid t sched svc) \<noteq> Some (RpcException InvalidArgument msg_invalid_request)
           \<or> (\<exists>a \<in> set sched. write_error a = Some (RpcException InvalidArgument msg_invalid_request))"
    using assms loop[of transport_init]
    by (auto simp: Subscribe_try_def Let_def split: prod.splits)
qed

text \<open>
  C5, at the request \<open>channels = 0, sampleRate = 1000, bufferSize = 4\<close>. The \<open>try\<close> block
  raises the \<open>RpcException\<close> with \<open>StatusCode.InvalidArgument\<close> before a session exists
  and before anything is written, but the \<open>throw\<close> stands inside the block whose
  \<open>catch (Exception ex)\<close> rethrows every exception as \<open>StatusCode.Internal\<close>: the error the
  caller receives is an internal error whose text quotes the first one.
\<close>

theorem Subscribe_zero_channels_is_Internal:
  "Subscribe ex_Message request_0ch cid t sched svc0 =
     (Some (RpcException Internal
        (msg_transfer_error @ ex_Message (RpcException InvalidArgument msg_invalid_request))),
      [], svc0)"
  by (simp add: Subscribe_def Subscribe_try_def request_0ch_def StopDataGeneration_def svc0_def)

section \<open>The circular buffer returns the most recent pushes in push order\<close>

lemma mod_distinct_window:
  fixes j n c :: nat
  assumes "j < n" "n < j + c"
  shows "j mod c \<noteq> n mod c"
proof
  assume "j mod c = n mod c"
  then have "c dvd n - j"
    using assms(1) by (metis mod_eq_dvd_iff_nat less_imp_le_nat)
  moreover have "0 < n - j" "n - j < c" using assms by auto
  ultimately show False using dvd_imp_le by (metis not_less)
qed

lemma full_after_push:
  fixes n c :: nat
  assumes "0 < c"
  shows "(Suc n mod c = 0 \<or> c \<le> n) = (c \<le> Suc n)"
proof (cases "c \<le> n")
  case True
  then show ?thesis by simp
next
  case False
  then have "Suc n \<le> c" by simp
  then show ?thesis using False assms
    by (cases "Suc n = c") auto
qed

lemma pushes_snoc: "pushes f (ps @ [p]) b = push f (fst p) (snd p) (pushes f ps b)"
  by (simp add: pushes_def case_prod_beta)

lemma pushes_state:
  assumes c: "0 < c" and b0: "fresh c b0"
  shows "size_buf (pushes f ps b0) = c \<and>
         length (buffer (pushes f ps b0)) = c \<and>
         length (timeBuffer (pushes f ps b0)) = c \<and>
         writeIndex (pushes f ps b0) = Some (length ps mod c) \<and>
         isFull (pushes f ps b0) = (c \<le> length ps) \<and>
         (\<forall>j < length ps. length ps \<le> j + c \<longrightarrow>
            buffer (pushes f ps b0) ! (j mod c) = f (fst (ps ! j)) \<and>
            timeBuffer (pushes f ps b0) ! (j mod c) = f (snd (ps ! j)))"
proof (induction ps rule: rev_induct)
  case Nil
  then show ?case using c b0 by (simp add: pushes_def fresh_def)
next
  case (snoc p ps)
  let ?b = "pushes f ps b0"
  let ?n = "length ps"
  from snoc have sz: "size_buf ?b = c" and lb: "length (buffer ?b) = c"
    and lt: "length (timeBuffer ?b) = c" and wi: "writeIndex ?b = Some (?n mod c)"
    and fu: "isFull ?b = (c \<le> ?n)"
    and el: "\<And>j. j < ?n \<Longrightarrow> ?n \<le> j + c \<Longrightarrow>
            buffer ?b ! (j mod c) = f (fst (ps ! j)) \<and> timeBuffer ?b ! (j mod c) = f (snd (ps ! j))"
    by auto
  have w': "js_mod (js_succ (writeIndex ?b)) (size_buf ?b) = Some (Suc ?n mod c)"
    using c by (simp add: js_mod_def js_succ_def wi sz mod_Suc_eq)
  have in_range: "?n mod c < c" using c by simp
  have p1: "size_buf (push f (fst p) (snd p) ?b) = c" by (simp add: push_def Let_def sz)
  have p2: "length (buffer (push f (fst p) (snd p) ?b)) = c"
    by (simp add: push_def Let_def typed_set_def wi lb)
  have p3: "length (timeBuffer (push f (fst p) (snd p) ?b)) = c"
    by (simp add: push_def Let_def typed_set_def wi lt)
  have p4: "writeIndex (push f (fst p) (snd p) ?b) = Some (Suc ?n mod c)"
    by (simp add: push_def Let_def w')
  have p5: "isFull (push f (fst p) (snd p) ?b) = (c \<le> Suc ?n)"
    using full_after_push[OF c, of ?n] by (auto simp add: push_def Let_def w' fu)
  have p6: "buffer (push f (fst p) (snd p) ?b) ! (j mod c) = f (fst ((ps @ [p]) ! j)) \<and>
            timeBuffer (push f (fst p) (snd p) ?b) ! (j mod c) = f (snd ((ps @ [p]) ! j))"
    if j: "j < Suc ?n" "Suc ?n \<le> j + c" for j
  proof (cases "j = ?n")
    case True
    then show ?thesis using in_range
      by (simp add: push_def Let_def typed_set_def wi lb lt)
  next
    case False
    with j have jn: "j < ?n" "?n < j + c" by auto
    from mod_distinct_window[OF jn] have ne: "?n mod c \<noteq> j mod c" by simp
    from el[of j] jn have "buffer ?b ! (j mod c) = f (fst (ps ! j)) \<and>
       timeBuffer ?b ! (j mod c) = f (snd (ps ! j))" by simp
    then show ?thesis using in_range ne jn(1)
      by (simp add: push_def Let_def typed_set_def wi lb lt nth_append)
  qed
  show ?case
    unfolding pushes_snoc using p1 p2 p3 p4 p5 p6 by simp
qed

lemma getData_pushes:
  assumes c: "0 < c" and b0: "fresh c b0"
  shows "pairs_out (getData (pushes f ps b0))
           = map (stored f) (drop (length ps - c) ps) \<and>
         length_out (getData (pushes f ps b0)) = Some (min (length ps) c) \<and>
         length (values_out (getData (pushes f ps b0))) = min (length ps) c \<and>
         length (times_out (getData (pushes f ps b0))) = min (length ps) c"
proof -
  let ?b = "pushes f ps b0"
  let ?n = "length ps"
  from pushes_state[OF c b0, of f ps] have sz: "size_buf ?b = c" and lb: "length (buffer ?b) = c"
    and lt: "length (timeBuffer ?b) = c" and wi: "writeIndex ?b = Some (?n mod c)"
    and fu: "isFull ?b = (c \<le> ?n)"
    and el: "\<And>j. j < ?n \<Longrightarrow> ?n \<le> j + c \<Longrightarrow>
            buffer ?b ! (j mod c) = f (fst (ps ! j)) \<and> timeBuffer ?b ! (j mod c) = f (snd (ps ! j))"
    by auto
  show ?thesis
  proof (cases "c \<le> ?n")
    case True
    have idx: "js_mod (js_add (writeIndex ?b) i) c = Some ((?n - c + i) mod c)" for i
    proof -
      have "(?n mod c + i) mod c = (?n + i) mod c" by (simp add: mod_add_left_eq)
      also have "\<dots> = ((?n - c + i) + c) mod c" using True by simp
      also have "\<dots> = (?n - c + i) mod c" by simp
      finally show ?thesis using c by (simp add: js_mod_def js_add_def wi)
    qed
    have rd: "typed_get (buffer ?b) (js_mod (js_add (writeIndex ?b) i) c) = f (fst (drop (?n - c) ps ! i)) \<and>
              typed_get (timeBuffer ?b) (js_mod (js_add (writeIndex ?b) i) c) = f (snd (drop (?n - c) ps ! i))"
      if "i < c" for i
    proof -
      have "buffer ?b ! ((?n - c + i) mod c) = f (fst (ps ! (?n - c + i))) \<and>
            timeBuffer ?b ! ((?n - c + i) mod c) = f (snd (ps ! (?n - c + i)))"
        using that True by (intro el) auto
      then show ?thesis
        unfolding idx using c True that by (simp add: typed_get_def lb lt)
    qed
    have v: "values_out (getData ?b) = map (\<lambda>p. f (fst p)) (drop (?n - c) ps)"
    proof (rule nth_equalityI)
      show "length (values_out (getData ?b)) = length (map (\<lambda>p. f (fst p)) (drop (?n - c) ps))"
        using True by (simp add: getData_def Let_def fu sz)
      fix i assume "i < length (values_out (getData ?b))"
      then have i: "i < c" using True by (simp add: getData_def Let_def fu sz)
      then show "values_out (getData ?b) ! i = map (\<lambda>p. f (fst p)) (drop (?n - c) ps) ! i"
        using True rd[OF i] by (simp add: getData_def Let_def fu sz)
    qed
    have t: "times_out (getData ?b) = map (\<lambda>p. f (snd p)) (drop (?n - c) ps)"
    proof (rule nth_equalityI)
      show "length (times_out (getData ?b)) = length (map (\<lambda>p. f (snd p)) (drop (?n - c) ps))"
        using True by (simp add: getData_def Let_def fu sz)
      fix i assume "i < length (times_out (getData ?b))"
      then have i: "i < c" using True by (simp add: getData_def Let_def fu sz)
      then show "times_out (getData ?b) ! i = map (\<lambda>p. f (snd p)) (drop (?n - c) ps) ! i"
        using True rd[OF i] by (simp add: getData_def Let_def fu sz)
    qed
    have "pairs_out (getData ?b) = map (stored f) (drop (?n - c) ps)"
      unfolding pairs_out_def v t by (simp add: zip_map_map stored_def zip_same_conv_map)
    moreover have "length_out (getData ?b) = Some (min ?n c)"
      using True by (simp add: getData_def Let_def fu sz min_def)
    ultimately show ?thesis using True by (simp add: v t min_def)
  next
    case False
    then have n: "?n < c" by simp
    then have m: "?n mod c = ?n" by simp
    have rd: "buffer ?b ! i = f (fst (ps ! i)) \<and> timeBuffer ?b ! i = f (snd (ps ! i))"
      if "i < ?n" for i
      using el[of i] that n by simp
    have v: "values_out (getData ?b) = map (\<lambda>p. f (fst p)) ps"
      using n rd by (auto simp: getData_def Let_def fu wi m lb intro!: nth_equalityI)
    have t: "times_out (getData ?b) = map (\<lambda>p. f (snd p)) ps"
      using n rd by (auto simp: getData_def Let_def fu wi m lt intro!: nth_equalityI)
    have "pairs_out (getData ?b) = map (stored f) (drop (?n - c) ps)"
      unfolding pairs_out_def v t using n by (simp add: zip_map_map stored_def zip_same_conv_map)
    moreover have "length_out (getData ?b) = Some (min ?n c)"
      using n by (simp add: getData_def Let_def fu wi m min_def)
    ultimately show ?thesis using n by (simp add: v t min_def)
  qed
qed


lemma fresh_new: "fresh c (CircularBuffer_new c)"
  by (simp add: fresh_def CircularBuffer_new_def)

lemma fresh_clear:
  assumes "0 < c"
  shows "fresh c (clear (pushes f qs (CircularBuffer_new c)))"
  using pushes_state[OF assms fresh_new, of f qs] by (simp add: fresh_def clear_def)

lemma getData_reads_in_range:
  assumes "0 < c" "fresh c b0" "isFull (pushes f ps b0)" "i < size_buf (pushes f ps b0)"
  shows "\<exists>k. js_mod (js_add (writeIndex (pushes f ps b0)) i) (size_buf (pushes f ps b0)) = Some k \<and>
             k < length (buffer (pushes f ps b0)) \<and> k < length (timeBuffer (pushes f ps b0))"
  using pushes_state[OF assms(1,2), of f ps] assms(1)
  by (simp add: js_mod_def js_add_def)

text \<open>
  C3 (as amended). Take a buffer of capacity \<open>c > 0\<close> that is new, or has just been
  cleared after any earlier use, and push the pairs \<open>ps\<close> in order. Then \<open>getData\<close>
  returns a length that is the number of pairs it returns and is at most \<open>c\<close>; after fewer
  than \<open>c\<close> pushes it returns the pushed pairs in push order (nothing of the slots that
  were not written since); after \<open>c + k\<close> pushes it returns \<open>c\<close> pairs, the most recent
  \<open>c\<close> pushes in push order. The pairs are returned as the \<open>Float32Array\<close>s hold them,
  each number rounded to single precision (\<open>stored fround\<close>, for the rounding \<open>fround\<close>
  of the store): they are exactly the pushed pairs where every pushed number is a
  single-precision number already.
\<close>

theorem getData_most_recent:
  assumes "0 < c"
    and "b0 = CircularBuffer_new c \<or> b0 = clear (pushes fround qs (CircularBuffer_new c))"
  shows "(\<exists>l. length_out (getData (pushes fround ps b0)) = Some l \<and> l \<le> c \<and>
              l = length (pairs_out (getData (pushes fround ps b0))) \<and>
              l = length (values_out (getData (pushes fround ps b0))) \<and>
              l = length (times_out (getData (pushes fround ps b0)))) \<and>
         (length ps < c \<longrightarrow>
            pairs_out (getData (pushes fround ps b0)) = map (stored fround) ps) \<and>
         (\<forall>k. length ps = c + k \<longrightarrow>
            length_out (getData (pushes fround ps b0)) = Some c \<and>
            pairs_out (getData (pushes fround ps b0)) = map (stored fround) (drop k ps)) \<and>
         ((\<forall>p \<in> set ps. stored fround p = p) \<longrightarrow>
            (length ps < c \<longrightarrow> pairs_out (getData (pushes fround ps b0)) = ps) \<and>
            (\<forall>k. length ps = c + k \<longrightarrow>
               pairs_out (getData (pushes fround ps b0)) = drop k ps))"
proof -
  have f: "fresh c b0"
    using assms fresh_new fresh_clear by auto
  note g = getData_pushes[OF assms(1) f, of fround ps]
  have e: "map (stored fround) (drop k ps) = drop k ps"
    if "\<forall>p \<in> set ps. stored fround p = p" for k
  proof (rule map_idI)
    fix p assume "p \<in> set (drop k ps)"
    then have "p \<in> set ps" by (rule in_set_dropD)
    with that show "stored fround p = p" by blast
  qed
  show ?thesis
  proof (intro conjI impI allI)
    show "\<exists>l. length_out (getData (pushes fround ps b0)) = Some l \<and> l \<le> c \<and>
              l = length (pairs_out (getData (pushes fround ps b0))) \<and>
              l = length (values_out (getData (pushes fround ps b0))) \<and>
              l = length (times_out (getData (pushes fround ps b0)))"
      using g by (simp add: pairs_out_def)
  next
    assume "length ps < c"
    then show "pairs_out (getData (pushes fround ps b0)) = map (stored fround) ps"
      using g by simp
  next
    fix k assume k: "length ps = c + k"
    then show "length_out (getData (pushes fround ps b0)) = Some c"
      using g by simp
    from k show "pairs_out (getData (pushes fround ps b0)) = map (stored fround) (drop k ps)"
      using g by simp
  next
    assume x: "\<forall>p \<in> set ps. stored fround p = p" and "length ps < c"
    then show "pairs_out (getData (pushes fround ps b0)) = ps"
      using g e[OF x, of 0] by simp
  next
    fix k assume x: "\<forall>p \<in> set ps. stored fround p = p" and k: "length ps = c + k"
    then show "pairs_out (getData (pushes fround ps b0)) = drop k ps"
      using g e[OF x, of k] by simp
  qed
qed

theorem getData_most_recent_witness:
  "pairs_out (getData (pushes halve [(2, 20), (4, 40), (6, 60), (8, 80), (10, 100)]
                 (CircularBuffer_new 3)))
     = [(3, 30), (4, 40), (5, 50)] \<and>
   length_out (getData (pushes halve [(2, 20), (4, 40), (6, 60), (8, 80), (10, 100)]
                 (CircularBuffer_new 3))) = Some 3 \<and>
   pairs_out (getData (pushes halve [(2, 20), (4, 40)]
                 (clear (pushes halve [(1, 1), (1, 1), (1, 1), (1, 1)] (CircularBuffer_new 3)))))
     = [(1, 10), (2, 20)] \<and>
   pairs_out (getData (pushes halve [(0, 0)] (CircularBuffer_new 3))) = [(0, 0)]"
proof -
  have a: "(0::nat) < 3" by simp
  have l5: "length [(2, 20), (4, 40), (6, 60), (8, 80), (10, 100 :: real)] = 3 + 2" by simp
  have l2: "length [(2, 20), (4, 40 :: real)] < 3" by simp
  have l1: "length [(0, 0 :: real)] < 3" by simp
  have x: "\<forall>p \<in> set [(0, 0 :: real)]. stored halve p = p"
    by (simp add: stored_def halve_def)
  from getData_most_recent[OF a disjI1[OF refl], of halve "[(2, 20), (4, 40), (6, 60), (8, 80), (10, 100)]"]
    l5
  have 1: "pairs_out (getData (pushes halve [(2, 20), (4, 40), (6, 60), (8, 80), (10, 100)]
                 (CircularBuffer_new 3)))
     = [(3, 30), (4, 40), (5, 50)] \<and>
   length_out (getData (pushes halve [(2, 20), (4, 40), (6, 60), (8, 80), (10, 100)]
                 (CircularBuffer_new 3))) = Some 3"
    by (simp add: stored_def halve_def)
  from getData_most_recent[OF a disjI2[OF refl], of halve "[(2, 20), (4, 40)]" "[(1, 1), (1, 1), (1, 1), (1, 1)]"]
    l2
  have 2: "pairs_out (getData (pushes halve [(2, 20), (4, 40)]
                 (clear (pushes halve [(1, 1), (1, 1), (1, 1), (1, 1)] (CircularBuffer_new 3)))))
     = [(1, 10), (2, 20)]"
    by (simp add: stored_def halve_def)
  from getData_most_recent[OF a disjI1[OF refl], of halve "[(0, 0)]"] l1 x
  have 3: "pairs_out (getData (pushes halve [(0, 0)] (CircularBuffer_new 3))) = [(0, 0)]"
    by blast
  from 1 2 3 show ?thesis by blast
qed

lemma Math_fround_normal:
  assumes "2 powr of_int e \<le> \<bar>x\<bar>" "\<bar>x\<bar> < 2 powr (of_int e + 1)" "- 126 \<le> e"
  shows "Math_fround x =
           of_int (round_half_even (x / 2 powr (of_int e - 23))) * 2 powr (of_int e - 23)"
proof -
  have "0 < (2::real) powr of_int e" by simp
  with assms(1) have pos: "0 < \<bar>x\<bar>" by linarith
  then have nz: "x \<noteq> 0" by simp
  have "of_int e \<le> log 2 \<bar>x\<bar>"
    using assms(1) pos by (simp add: le_log_iff)
  moreover have "log 2 \<bar>x\<bar> < of_int e + 1"
    using assms(2) pos by (simp add: log_less_iff)
  ultimately have "\<lfloor>log 2 \<bar>x\<bar>\<rfloor> = e" by (rule floor_unique)
  then show ?thesis using nz assms(3) by (simp add: Math_fround_def Let_def max_def)
qed

lemma Math_fround_16777217: "Math_fround 16777217 = 16777216"
proof -
  have "Math_fround 16777217 =
      of_int (round_half_even (16777217 / 2 powr (of_int 24 - 23))) * 2 powr (of_int 24 - 23)"
    by (rule Math_fround_normal) simp_all
  also have "2 powr (of_int 24 - 23) = (2::real)" by simp
  also have "round_half_even (16777217 / 2) = 8388608"
    by (simp add: round_half_even_def Let_def)
  finally show ?thesis by simp
qed

lemma Math_fround_tenth: "Math_fround (1 / 10) = 13421773 / 134217728"
proof -
  have "Math_fround (1 / 10) =
      of_int (round_half_even ((1 / 10) / 2 powr (of_int (- 4) - 23))) * 2 powr (of_int (- 4) - 23)"
    by (rule Math_fround_normal) (simp_all add: powr_minus)
  also have "2 powr (of_int (- 4) - 23) = (1 / 134217728 :: real)"
    by (simp add: powr_minus)
  also have "round_half_even ((1 / 10) / (1 / 134217728)) = 13421773"
    by (simp add: round_half_even_def Let_def)
  finally show ?thesis by simp
qed

text \<open>
  The pairs returned are not always exactly the pushed ones: a buffer of capacity 2 into
  which the pair \<open>(0.1, 16777217)\<close> is pushed returns \<open>(13421773 / 2^27, 16777216)\<close>, about
  \<open>(0.10000000149, 16777216)\<close>. Neither number has 24 significant bits, and the
  \<open>Float32Array\<close>s hold the nearest numbers that have. And with the capacity 0 the
  write index becomes \<open>NaN\<close> at the first push, and so does the length \<open>getData\<close> returns.
\<close>

theorem getData_rounds_to_single_precision:
  "pairs_out (getData (pushes Math_fround [(1 / 10, 16777217)] (CircularBuffer_new 2)))
     = [(13421773 / 134217728, 16777216)] \<and>
   pairs_out (getData (pushes Math_fround [(1 / 10, 16777217)] (CircularBuffer_new 2)))
     \<noteq> [(1 / 10, 16777217)] \<and>
   length_out (getData (pushes Math_fround [(1 / 10, 16777217)] (CircularBuffer_new 0))) = None"
proof -
  have a: "(0::nat) < 2" by simp
  from getData_pushes[OF a fresh_new, of Math_fround "[(1 / 10, 16777217)]"]
  have "pairs_out (getData (pushes Math_fround [(1 / 10, 16777217)] (CircularBuffer_new 2)))
     = [(Math_fround (1 / 10), Math_fround 16777217)]"
    by (simp add: stored_def)
  moreover have
    "length_out (getData (pushes Math_fround [(1 / 10, 16777217)] (CircularBuffer_new 0))) = None"
    by (simp add: pushes_def push_def getData_def CircularBuffer_new_def Let_def
        js_mod_def js_succ_def typed_set_def)
  ultimately show ?thesis
    by (simp add: Math_fround_16777217 Math_fround_tenth)
qed

section \<open>The level-of-detail step and the number of points kept\<close>

lemma ceil_div_step:
  fixes m s :: nat
  assumes "0 < s" "0 < m"
  shows "(m + s - 1) div s = Suc ((m - s + s - 1) div s)"
proof -
  from assms(2) obtain k where k: "m = Suc k" by (cases m) auto
  have l: "(m + s - 1) div s = Suc (k div s)"
  proof -
    have "m + s - 1 = k + s" by (simp add: k)
    moreover have "(k + s) div s = Suc (k div s)" using assms(1) by simp
    ultimately show ?thesis by (simp only:)
  qed
  show ?thesis
  proof (cases "s \<le> m")
    case True
    then have "m - s + s - 1 = k" by (simp add: k)
    then show ?thesis by (simp only: l)
  next
    case False
    then have "m - s + s - 1 = s - 1" "k < s" by (auto simp: k)
    moreover have "(s - 1) div s = 0" using assms(1) by simp
    moreover have "k div s = 0" using \<open>k < s\<close> by simp
    ultimately show ?thesis by (simp only: l)
  qed
qed

lemma sample_loop_finite:
  assumes s: "0 < s"
  shows "sample_loop (Some (enat i)) (Some (enat s)) xs acc =
           Some (acc @ map (\<lambda>k. (i + k * s, xs ! (i + k * s))) [0..<(length xs - i + s - 1) div s])"
proof (induction "length xs - i" arbitrary: i acc rule: less_induct)
  case less
  show ?case
  proof (cases "i < length xs")
    case False
    then have "(length xs - i + s - 1) div s = 0" using s by simp
    with False show ?thesis
      by (subst sample_loop.simps) (simp add: js_less_nat_def)
  next
    case True
    have cnt: "(length xs - i + s - 1) div s = Suc ((length xs - (i + s) + s - 1) div s)"
      using ceil_div_step[OF s, of "length xs - i"] True by simp
    have "sample_loop (Some (enat i)) (Some (enat s)) xs acc =
          sample_loop (Some (enat (i + s))) (Some (enat s)) xs (acc @ [(i, xs ! i)])"
      using True by (subst sample_loop.simps) (simp add: js_less_nat_def js_plus_def js_index_def)
    also have "\<dots> = Some ((acc @ [(i, xs ! i)]) @
        map (\<lambda>k. (i + s + k * s, xs ! (i + s + k * s))) [0..<(length xs - (i + s) + s - 1) div s])"
      using True s by (intro less) simp
    also have "\<dots> = Some (acc @ map (\<lambda>k. (i + k * s, xs ! (i + k * s))) [0..<(length xs - i + s - 1) div s])"
      unfolding cnt by (simp del: upt_Suc add: map_upt_Suc add.assoc add.commute[of s])
    finally show ?thesis .
  qed
qed

lemma sample_loop_Infinity:
  "sample_loop (Some 0) (Some \<infinity>) xs [] = Some (if xs = [] then [] else [(0, xs ! 0)])"
  apply (subst sample_loop.simps)
  apply (simp add: js_less_nat_def js_plus_def js_index_def zero_enat_def)
  apply (subst sample_loop.simps)
  apply (simp add: js_less_nat_def)
  done

lemma sample_loop_NaN:
  "sample_loop (Some 0) None xs [] = Some (if xs = [] then [] else [(0, xs ! 0)])"
  apply (subst sample_loop.simps)
  apply (simp add: js_less_nat_def js_plus_def js_index_def zero_enat_def)
  apply (subst sample_loop.simps)
  apply (simp add: js_less_nat_def)
  done








lemma calculateOptimalStep_zero_target:
  "calculateOptimalStep n 0 = (if n = 0 then Some 1 else Some \<infinity>)"
  by (simp add: calculateOptimalStep_def max1_floor_div_def)

lemma lod_sample_returns:
  "\<exists>out. lod_sample (max1_floor_div n t) xs = Some out"
  "\<exists>out. lod_sample (calculateOptimalStep n t) xs = Some out"
proof -
  have pos: "0 < nat (max 1 \<lfloor>of_nat n / t\<rfloor>)" by simp
  show a: "\<exists>out. lod_sample (max1_floor_div n t) xs = Some out"
    using sample_loop_finite[OF pos, of 0 xs "[]"] sample_loop_Infinity[of xs] sample_loop_NaN[of xs]
    by (auto simp: lod_sample_def max1_floor_div_def zero_enat_def)
  have "\<exists>out. lod_sample (Some 1) xs = Some out"
    using sample_loop_finite[of 1 0 xs "[]"] by (simp add: lod_sample_def zero_enat_def one_enat_def)
  with a show "\<exists>out. lod_sample (calculateOptimalStep n t) xs = Some out"
    by (simp add: calculateOptimalStep_def)
qed

lemma convertDataToPlot_returns:
  "\<exists>traces. convertDataToPlot k maxPoints rawData = Some traces"
proof -
  have "\<exists>traces. convertDataToPlot_traces maxPoints chans = Some traces" for chans :: "'a list list"
  proof (induction chans)
    case Nil
    then show ?case by simp
  next
    case (Cons xs chans)
    from lod_sample_returns(1)[of "length xs" maxPoints xs] Cons show ?case by auto
  qed
  then show ?thesis by (simp add: convertDataToPlot_def)
qed










section \<open>Reset of the performance metrics\<close>

lemma Reset_final:
  "Reset now m = m\<lparr>TotalBytesSent := 0, TotalPacketsSent := 0, LatencyCount := 0, LatencySum := 0,
      MinLatency := 0, MaxLatency := 0,
      LatencyDistribution := replicate (length (LatencyDistribution m)) 0,
      LastUpdateTime := now\<rparr>"
  by (simp add: Reset_def Reset_writes_def map_replicate_const)

lemma length_LatencyDistribution_new:
  "length (LatencyDistribution (PerformanceMetrics_new now)) = 6"
  by (simp add: PerformanceMetrics_new_def)

lemma length_LatencyDistribution_Update:
  "length (LatencyDistribution (UpdateLatencyStats l m)) = length (LatencyDistribution m)"
  by (simp add: UpdateLatencyStats_def)

lemma length_LatencyDistribution_Record:
  "length (LatencyDistribution (RecordDataSent b now m)) = length (LatencyDistribution m)"
  by (simp add: RecordDataSent_def)

lemma latency_bucket_less_6: "latency_bucket l < 6"
  by (simp add: latency_bucket_def)

lemma seen_under_lock_eq:
  "seen_under_lock now m =
     [m, m\<lparr>TotalBytesSent := 0\<rparr>, m\<lparr>TotalBytesSent := 0, TotalPacketsSent := 0\<rparr>,
      (Reset now m)\<lparr>LastUpdateTime := LastUpdateTime m\<rparr>, Reset now m]"
  by (simp add: seen_under_lock_def Reset_states_def Reset_writes_def Reset_final
      map_replicate_const)

lemma seen_without_lock_last: "last (seen_without_lock now m) = Reset now m"
  by (simp add: seen_without_lock_def Reset_states_def Reset_writes_def Reset_final
      map_replicate_const)

lemma length_metrics_busy: "length (LatencyDistribution metrics_busy) = 6"
  by (simp add: metrics_busy_def length_LatencyDistribution_Update
      length_LatencyDistribution_Record length_LatencyDistribution_new)

text \<open>
  C9 (as amended). When \<open>Reset\<close> has returned, the bytes-sent and packets-sent counters,
  the latency count, sum, minimum and maximum and all six buckets of the histogram read
  zero, whatever they held before. The latency statistics are cleared inside one critical
  section of \<open>LatencyLock\<close>: a reader that holds that lock sees them either all as they
  were or all cleared. The two counters are not part of that section.
\<close>

theorem Reset_clears_all_fields:
  assumes "length (LatencyDistribution m) = 6"
  shows "all_cleared (Reset now m) \<and>
         TotalBytesSent (Reset now m) = 0 \<and> TotalPacketsSent (Reset now m) = 0 \<and>
         LatencyCount (Reset now m) = 0 \<and> LatencySum (Reset now m) = 0 \<and>
         MinLatency (Reset now m) = 0 \<and> MaxLatency (Reset now m) = 0 \<and>
         LatencyDistribution (Reset now m) = [0, 0, 0, 0, 0, 0] \<and>
         last (seen_without_lock now m) = Reset now m \<and>
         (\<forall>s \<in> set (seen_under_lock now m).
            latency_stats s = latency_stats m \<or> latency_stats s = (0, 0, 0, 0, replicate 6 0))"
proof (intro conjI)
  have r6: "replicate 6 (0 :: 64 word) = [0, 0, 0, 0, 0, 0]"
    by (simp add: numeral_eq_Suc)
  show "all_cleared (Reset now m)"
    using assms by (simp add: all_cleared_def latency_stats_def Reset_final)
  show "TotalBytesSent (Reset now m) = 0" "TotalPacketsSent (Reset now m) = 0"
    "LatencyCount (Reset now m) = 0" "LatencySum (Reset now m) = 0"
    "MinLatency (Reset now m) = 0" "MaxLatency (Reset now m) = 0"
    by (simp_all add: Reset_final)
  show "LatencyDistribution (Reset now m) = [0, 0, 0, 0, 0, 0]"
    using assms r6 by (simp add: Reset_final)
  show "last (seen_without_lock now m) = Reset now m"
    by (rule seen_without_lock_last)
  show "\<forall>s \<in> set (seen_under_lock now m).
            latency_stats s = latency_stats m \<or> latency_stats s = (0, 0, 0, 0, replicate 6 0)"
    using assms by (auto simp: seen_under_lock_eq latency_stats_def Reset_final)
qed

theorem Reset_clears_all_fields_witness:
  "TotalBytesSent metrics_busy = 1600 \<and> LatencyDistribution metrics_busy = [0, 1, 0, 0, 0, 0] \<and>
   all_cleared (Reset 99 metrics_busy) \<and>
   LatencyDistribution (Reset 99 metrics_busy) = [0, 0, 0, 0, 0, 0]"
proof -
  have "TotalBytesSent metrics_busy = 1600 \<and> LatencyDistribution metrics_busy = [0, 1, 0, 0, 0, 0]"
    by (simp add: metrics_busy_def UpdateLatencyStats_def RecordDataSent_def
        PerformanceMetrics_new_def latency_bucket_def numeral_eq_Suc)
  with Reset_clears_all_fields[OF length_metrics_busy, of 99] show ?thesis by simp
qed

text \<open>
  The claim as stated (no reader observes a partially-reset state) fails between the two
  \<open>Interlocked.Exchange\<close> calls: after the first one a reader finds the bytes-sent counter
  cleared and the packets-sent counter, with everything else, as it was.
\<close>

theorem Reset_partially_reset_state:
  "seen_without_lock 99 metrics_busy ! 1 \<noteq> metrics_busy \<and>
   \<not> all_cleared (seen_without_lock 99 metrics_busy ! 1) \<and>
   TotalBytesSent (seen_without_lock 99 metrics_busy ! 1) = 0 \<and>
   TotalPacketsSent (seen_without_lock 99 metrics_busy ! 1) = 2 \<and>
   LatencyCount (seen_without_lock 99 metrics_busy ! 1) = 1"
proof -
  have s: "seen_without_lock 99 metrics_busy ! 1 = metrics_busy\<lparr>TotalBytesSent := 0\<rparr>"
    by (simp add: seen_without_lock_def Reset_states_def Reset_writes_def)
  have m: "TotalBytesSent metrics_busy = 1600" "TotalPacketsSent metrics_busy = 2"
    "LatencyCount metrics_busy = 1"
    by (simp_all add: metrics_busy_def UpdateLatencyStats_def RecordDataSent_def
        PerformanceMetrics_new_def)
  have "metrics_busy\<lparr>TotalBytesSent := 0\<rparr> \<noteq> metrics_busy"
  proof
    assume "metrics_busy\<lparr>TotalBytesSent := 0\<rparr> = metrics_busy"
    then have "TotalBytesSent (metrics_busy\<lparr>TotalBytesSent := 0\<rparr>) = TotalBytesSent metrics_busy"
      by simp
    then show False using m(1) by simp
  qed
  then show ?thesis unfolding s using m by (simp add: all_cleared_def)
qed

section \<open>The payload of the sample generator\<close>

lemma sint_of_nat_32:
  assumes "n < 2 ^ 31"
  shows "sint (word_of_nat n :: 32 word) = int n"
proof -
  have "sint (word_of_nat n :: 32 word) = signed_take_bit 31 (int n)"
    using sint_sbintrunc'[of "int n", where 'a = 32] by simp
  also have "\<dots> = int n"
    using assms by (intro signed_take_bit_int_eq_self) auto
  finally show ?thesis .
qed

lemma sint_of_int_16:
  assumes "- 32768 \<le> t" "t \<le> 32767"
  shows "sint (word_of_int t :: 16 word) = t"
proof -
  have "sint (word_of_int t :: 16 word) = signed_take_bit 15 t"
    by (simp add: sint_sbintrunc')
  also have "\<dots> = t"
    using assms by (intro signed_take_bit_int_eq_self) auto
  finally show ?thesis .
qed

lemma word_cat_bytes: "word_cat (high_byte w) (low_byte w) = (w :: 16 word)"
  by (rule bit_word_eqI)
    (auto simp: bit_word_cat_iff high_byte_def low_byte_def bit_ucast_iff bit_drop_bit_eq
      dest: bit_imp_le_length)

lemma truncate_clamp_range:
  "- 32768 \<le> truncate_real (Math_Clamp v (- 32768) 32767) \<and>
   truncate_real (Math_Clamp v (- 32768) 32767) \<le> 32767"
  by (auto simp: truncate_real_def Math_Clamp_def le_floor_iff floor_le_iff ceiling_le_iff le_ceiling_iff)

lemma store_sample_ok:
  assumes "length buf = L" "2 * k + 1 < L" "L < 2 ^ 31"
  shows "store_sample w (buf, word_of_nat k) =
           Inr (buf[2 * k := low_byte w, 2 * k + 1 := high_byte w], word_of_nat (Suc k))"
proof -
  have a: "sint (word_of_nat k * 2 :: 32 word) = int (2 * k)"
  proof -
    have "(word_of_nat k * 2 :: 32 word) = word_of_nat (2 * k)" by simp
    moreover have "2 * k < 2 ^ 31" using assms by simp
    ultimately show ?thesis using sint_of_nat_32[of "2 * k"] by (simp only:)
  qed
  have b: "sint (word_of_nat k * 2 + 1 :: 32 word) = int (2 * k + 1)"
  proof -
    have "(word_of_nat k * 2 + 1 :: 32 word) = word_of_nat (2 * k + 1)" by simp
    moreover have "2 * k + 1 < 2 ^ 31" using assms by simp
    ultimately show ?thesis using sint_of_nat_32[of "2 * k + 1"] by (simp only:)
  qed
  have c: "nat (2 * int k) = 2 * k" "nat (1 + 2 * int k) = Suc (2 * k)" by simp_all
  show ?thesis
    using assms by (simp add: store_sample_def span_set_def a b c)
qed


lemma store_sample_filled:
  assumes f: "filled smp L k st" and k: "2 * k + 1 < L" and L: "L < 2 ^ 31"
  shows "\<exists>st'. store_sample (smp k) st = Inr st' \<and> filled smp L (Suc k) st'"
proof -
  obtain buf idx where st: "st = (buf, idx)" by (cases st)
  from f have len: "length buf = L" and idx: "idx = word_of_nat k"
    and old: "\<And>j. j < k \<Longrightarrow> buf ! (2 * j) = low_byte (smp j) \<and> buf ! (2 * j + 1) = high_byte (smp j)"
    by (auto simp: filled_def st)
  let ?buf' = "buf[2 * k := low_byte (smp k), 2 * k + 1 := high_byte (smp k)]"
  have s: "store_sample (smp k) st = Inr (?buf', word_of_nat (Suc k))"
    unfolding st idx by (rule store_sample_ok[OF len k L])
  have "filled smp L (Suc k) (?buf', word_of_nat (Suc k))"
    unfolding filled_def
  proof (intro conjI allI impI)
    show "length (fst (?buf', word_of_nat (Suc k) :: 32 word)) = L" by (simp add: len)
    show "snd (?buf', word_of_nat (Suc k) :: 32 word) = word_of_nat (Suc k)" by simp
  next
    fix j assume j: "j < Suc k"
    show "fst (?buf', word_of_nat (Suc k) :: 32 word) ! (2 * j) = low_byte (smp j)"
    proof (cases "j = k")
      case True
      then show ?thesis using k len by simp
    next
      case False
      with j have "j < k" by simp
      then show ?thesis using old[of j] by simp
    qed
    show "fst (?buf', word_of_nat (Suc k) :: 32 word) ! (2 * j + 1) = high_byte (smp j)"
    proof (cases "j = k")
      case True
      then show ?thesis using k len by simp
    next
      case False
      with j have "j < k" by simp
      then show ?thesis using old[of j] by simp
    qed
  qed
  with s show ?thesis by blast
qed

lemma inner_loop_filled:
  assumes L: "L < 2 ^ 31" and room: "2 * (s * C + C) \<le> L"
    and smp: "\<And>c. c < C \<Longrightarrow> smp (s * C + c) = f s c"
  shows "c0 \<le> C \<Longrightarrow> filled smp L (s * C + c0) st \<Longrightarrow>
         \<exists>st'. for_loop [c0..<C] (\<lambda>c. store_sample (f s c)) st = Inr st' \<and>
               filled smp L (s * C + C) st'"
proof (induction "C - c0" arbitrary: c0 st)
  case 0
  then have "c0 = C" by simp
  with 0 show ?case by simp
next
  case (Suc d)
  then have c0: "c0 < C" by simp
  have "2 * (s * C + c0) + 1 < L" using c0 room by simp
  from store_sample_filled[OF Suc.prems(2) this L]
  obtain st1 where st1: "store_sample (smp (s * C + c0)) st = Inr st1"
    and f1: "filled smp L (s * C + Suc c0) st1" by auto
  have "d = C - Suc c0" using Suc.hyps(2) by simp
  from Suc.hyps(1)[OF this _ f1] c0
  obtain st' where "for_loop [Suc c0..<C] (\<lambda>c. store_sample (f s c)) st1 = Inr st'"
    and "filled smp L (s * C + C) st'" by auto
  then show ?case
    using c0 st1 smp[OF c0] by (simp add: upt_conv_Cons)
qed

lemma outer_loop_filled:
  assumes L: "L < 2 ^ 31" and room: "2 * (S * C) \<le> L"
    and smp: "\<And>s c. s < S \<Longrightarrow> c < C \<Longrightarrow> smp (s * C + c) = f s c"
  shows "s0 \<le> S \<Longrightarrow> filled smp L (s0 * C) st \<Longrightarrow>
         \<exists>st'. for_loop [s0..<S] (\<lambda>s. for_loop [0..<C] (\<lambda>c. store_sample (f s c))) st = Inr st' \<and>
               filled smp L (S * C) st'"
proof (induction "S - s0" arbitrary: s0 st)
  case 0
  then have "s0 = S" by simp
  with 0 show ?case by simp
next
  case (Suc d)
  then have s0: "s0 < S" by simp
  have "s0 * C + C \<le> S * C"
  proof -
    have "Suc s0 * C \<le> S * C" using s0 by (intro mult_le_mono1) simp
    then show ?thesis by (simp add: add.commute)
  qed
  then have r: "2 * (s0 * C + C) \<le> L" using room by simp
  have "\<exists>st'. for_loop [0..<C] (\<lambda>c. store_sample (f s0 c)) st = Inr st' \<and>
               filled smp L (s0 * C + C) st'"
  proof (rule inner_loop_filled[OF L r])
    show "smp (s0 * C + c) = f s0 c" if "c < C" for c using smp[OF s0 that] .
    show "0 \<le> C" by simp
    show "filled smp L (s0 * C + 0) st" using Suc.prems(2) by simp
  qed
  then obtain st1 where st1: "for_loop [0..<C] (\<lambda>c. store_sample (f s0 c)) st = Inr st1"
    and f1: "filled smp L (s0 * C + C) st1" by auto
  have f1': "filled smp L (Suc s0 * C) st1" using f1 by (simp add: add.commute)
  have "d = S - Suc s0" using Suc.hyps(2) by simp
  from Suc.hyps(1)[OF this _ f1'] s0
  obtain st' where "for_loop [Suc s0..<S] (\<lambda>s. for_loop [0..<C] (\<lambda>c. store_sample (f s c))) st1 = Inr st'"
    and "filled smp L (S * C) st'" by auto
  then show ?case
    using s0 st1 by (simp add: upt_conv_Cons)
qed


lemma sint_unat_32:
  assumes "unat (w :: 32 word) < 2 ^ 31"
  shows "sint w = int (unat w)"
  using sint_of_nat_32[OF assms] by simp

lemma slot_index:
  assumes "c < (C::nat)"
  shows "(s * C + c) div C = s" "(s * C + c) mod C = c"
  using assms by simp_all

lemma slot_less:
  assumes "s < (S::nat)" "c < (C::nat)"
  shows "s * C + c < S * C"
proof -
  have "s * C + c < s * C + C" using assms(2) by simp
  also have "\<dots> = Suc s * C" by simp
  also have "\<dots> \<le> S * C" using assms(1) by (intro mult_le_mono1) simp
  finally show ?thesis .
qed

lemma factor_bounds:
  fixes a b n :: nat
  assumes "0 < a" "0 < b" "a * b * 2 < n"
  shows "a < n" "b < n"
proof -
  have 1: "a \<le> a * b" using assms(2) by simp
  have 2: "b \<le> a * b" using assms(1) by simp
  have 3: "a * b \<le> a * b * 2" by simp
  show "a < n" using 1 3 assms(3) by linarith
  show "b < n" using 2 3 assms(3) by linarith
qed

lemma GenerateHighPerformanceData_filled:
  assumes C: "0 < unat (Channels r)" and S: "0 < unat (BufferSize r)"
    and bound: "unat (Channels r) * unat (BufferSize r) * 2 < 2 ^ 31"
  shows "\<exists>bytes. GenerateHighPerformanceData r seqNumber noise = Inr bytes \<and>
           length bytes = unat (Channels r) * unat (BufferSize r) * 2 \<and>
           (\<forall>s < unat (BufferSize r). \<forall>c < unat (Channels r).
              bytes ! (2 * (s * unat (Channels r) + c)) = low_byte (sample16 r seqNumber noise s c) \<and>
              bytes ! (2 * (s * unat (Channels r) + c) + 1) = high_byte (sample16 r seqNumber noise s c))"
proof -
  let ?C = "unat (Channels r)" and ?S = "unat (BufferSize r)"
  let ?L = "?C * ?S * 2"
  let ?smp = "\<lambda>j. sample16 r seqNumber noise (j div ?C) (j mod ?C)"
  have Cb: "?C < 2 ^ 31" and Sb: "?S < 2 ^ 31"
    using factor_bounds[OF C S bound] by blast+
  have sC: "sint (Channels r) = int ?C" by (rule sint_unat_32[OF Cb])
  have sS: "sint (BufferSize r) = int ?S" by (rule sint_unat_32[OF Sb])
  have "Channels r * BufferSize r * 2 = (word_of_nat ?L :: 32 word)" by simp
  then have sL: "sint (Channels r * BufferSize r * 2) = int ?L"
    using sint_of_nat_32[OF bound] by (simp only:)
  have init: "filled ?smp ?L (0 * ?C) (replicate ?L 0, 0)"
    by (simp add: filled_def)
  have "\<exists>st'. for_loop [0..<?S]
            (\<lambda>s. for_loop [0..<?C] (\<lambda>c. store_sample (sample16 r seqNumber noise s c)))
            (replicate ?L 0, 0) = Inr st' \<and> filled ?smp ?L (?S * ?C) st'"
  proof (rule outer_loop_filled[OF bound _ _ _ init])
    show "2 * (?S * ?C) \<le> ?L" by (simp add: mult.commute)
    show "?smp (s * ?C + c) = sample16 r seqNumber noise s c" if "s < ?S" "c < ?C" for s c
      using slot_index[OF that(2), of s] by simp
    show "0 \<le> ?S" by simp
  qed
  then obtain st' where run: "for_loop [0..<?S]
            (\<lambda>s. for_loop [0..<?C] (\<lambda>c. store_sample (sample16 r seqNumber noise s c)))
            (replicate ?L 0, 0) = Inr st'"
    and fin: "filled ?smp ?L (?S * ?C) st'" by auto
  have g: "GenerateHighPerformanceData r seqNumber noise = Inr (fst st')"
    using run by (simp add: GenerateHighPerformanceData_def Let_def sC sS sL del: of_nat_mult)
  have len: "length (fst st') = ?L" using fin by (simp add: filled_def)
  have lay: "fst st' ! (2 * (s * ?C + c)) = low_byte (sample16 r seqNumber noise s c) \<and>
             fst st' ! (2 * (s * ?C + c) + 1) = high_byte (sample16 r seqNumber noise s c)"
    if "s < ?S" "c < ?C" for s c
  proof -
    from fin slot_less[OF that] have
      "fst st' ! (2 * (s * ?C + c)) = low_byte (?smp (s * ?C + c)) \<and>
       fst st' ! (2 * (s * ?C + c) + 1) = high_byte (?smp (s * ?C + c))"
      unfolding filled_def by blast
    then show ?thesis using slot_index[OF that(2), of s] by simp
  qed
  from g len lay show ?thesis by blast
qed


lemma decode_sample16:
  assumes "bytes ! (2 * k) = low_byte w" "bytes ! (2 * k + 1) = high_byte w"
  shows "decode_sample bytes k = sint w"
  using assms by (simp add: decode_sample_def word_cat_bytes)

lemma sint_sample16:
  "sint (sample16 r seqNumber noise s c) =
     truncate_real (Math_Clamp (sample_value r seqNumber noise s c) (- 32768) 32767)"
  unfolding sample16_def
  using truncate_clamp_range[of "sample_value r seqNumber noise s c"]
  by (intro sint_of_int_16) auto

text \<open>
  C1 (as amended). For a request with \<open>channels > 0\<close>, \<open>bufferSize > 0\<close> and
  \<open>channels * bufferSize * 2 < 2^31\<close> (the length fits the \<open>int\<close> the buffer is allocated
  with), the generator returns a payload of exactly \<open>channels * bufferSize * 2\<close> bytes for
  every sequence number and every noise; the sample of channel \<open>c\<close> at sample slot \<open>s\<close>
  stands at the bytes \<open>2 * (s * channels + c)\<close> (low byte) and \<open>2 * (s * channels + c) + 1\<close>
  (high byte), and read back as a signed 16-bit number it is the generated value clamped to
  \<open>[-32768, 32767]\<close> and truncated. The chunk of the pacer's cycle carries that payload.
\<close>

theorem GenerateHighPerformanceData_payload:
  assumes "0 < unat (Channels r)" and "0 < unat (BufferSize r)"
    and "unat (Channels r) * unat (BufferSize r) * 2 < 2 ^ 31"
  shows "\<exists>bytes. GenerateHighPerformanceData r seqNumber noise = Inr bytes \<and>
           length bytes = unat (Channels r) * unat (BufferSize r) * 2 \<and>
           (\<forall>s < unat (BufferSize r). \<forall>c < unat (Channels r).
              bytes ! (2 * (s * unat (Channels r) + c)) = low_byte (sample16 r seqNumber noise s c) \<and>
              bytes ! (2 * (s * unat (Channels r) + c) + 1) = high_byte (sample16 r seqNumber noise s c) \<and>
              decode_sample bytes (s * unat (Channels r) + c) =
                truncate_real (Math_Clamp (sample_value r seqNumber noise s c) (- 32768) 32767) \<and>
              - 32768 \<le> decode_sample bytes (s * unat (Channels r) + c) \<and>
              decode_sample bytes (s * unat (Channels r) + c) \<le> 32767) \<and>
           (\<exists>cyc. GenerateDataForClient_cycle clientId r interval True seqNumber noise now_ms duration
                     = Inr cyc \<and>
                  map_option Payload (chunk_out cyc) = Some bytes \<and>
                  map_option Seq (chunk_out cyc) = Some seqNumber)"
proof -
  from GenerateHighPerformanceData_filled[OF assms, of seqNumber noise]
  obtain bytes where g: "GenerateHighPerformanceData r seqNumber noise = Inr bytes"
    and len: "length bytes = unat (Channels r) * unat (BufferSize r) * 2"
    and lay: "\<And>s c. s < unat (BufferSize r) \<Longrightarrow> c < unat (Channels r) \<Longrightarrow>
              bytes ! (2 * (s * unat (Channels r) + c)) = low_byte (sample16 r seqNumber noise s c) \<and>
              bytes ! (2 * (s * unat (Channels r) + c) + 1) = high_byte (sample16 r seqNumber noise s c)"
    by blast
  have dec: "decode_sample bytes (s * unat (Channels r) + c) =
                truncate_real (Math_Clamp (sample_value r seqNumber noise s c) (- 32768) 32767)"
    if "s < unat (BufferSize r)" "c < unat (Channels r)" for s c
    using decode_sample16[of bytes "s * unat (Channels r) + c" "sample16 r seqNumber noise s c"]
      lay[OF that] by (simp add: sint_sample16)
  have cyc: "\<exists>cyc. GenerateDataForClient_cycle clientId r interval True seqNumber noise now_ms duration
                     = Inr cyc \<and>
                  map_option Payload (chunk_out cyc) = Some bytes \<and>
                  map_option Seq (chunk_out cyc) = Some seqNumber"
    by (simp add: GenerateDataForClient_cycle_def g)
  show ?thesis
  proof (intro exI[of _ bytes] conjI allI impI)
    show "GenerateHighPerformanceData r seqNumber noise = Inr bytes" by (rule g)
    show "length bytes = unat (Channels r) * unat (BufferSize r) * 2" by (rule len)
    show "\<exists>cyc. GenerateDataForClient_cycle clientId r interval True seqNumber noise now_ms duration
                     = Inr cyc \<and>
                  map_option Payload (chunk_out cyc) = Some bytes \<and>
                  map_option Seq (chunk_out cyc) = Some seqNumber" by (rule cyc)
  next
    fix s c assume sc: "s < unat (BufferSize r)" "c < unat (Channels r)"
    show "bytes ! (2 * (s * unat (Channels r) + c)) = low_byte (sample16 r seqNumber noise s c)"
      "bytes ! (2 * (s * unat (Channels r) + c) + 1) = high_byte (sample16 r seqNumber noise s c)"
      using lay[OF sc] by simp_all
    show "decode_sample bytes (s * unat (Channels r) + c) =
                truncate_real (Math_Clamp (sample_value r seqNumber noise s c) (- 32768) 32767)"
      by (rule dec[OF sc])
    show "- 32768 \<le> decode_sample bytes (s * unat (Channels r) + c)"
      "decode_sample bytes (s * unat (Channels r) + c) \<le> 32767"
      using truncate_clamp_range[of "sample_value r seqNumber noise s c"] dec[OF sc] by simp_all
  qed
qed

theorem GenerateHighPerformanceData_payload_witness:
  "\<exists>bytes. GenerateHighPerformanceData request_1ch 0 mid_noise = Inr bytes \<and> length bytes = 8 \<and>
      decode_sample bytes 3 \<le> 32767"
proof -
  have a: "0 < unat (Channels request_1ch)" "0 < unat (BufferSize request_1ch)"
    "unat (Channels request_1ch) * unat (BufferSize request_1ch) * 2 < 2 ^ 31"
    by (simp_all add: request_1ch_def)
  from GenerateHighPerformanceData_payload[OF a, of 0 mid_noise "''client''" "Finite 4" 0 0]
  obtain bytes where "GenerateHighPerformanceData request_1ch 0 mid_noise = Inr bytes"
    "length bytes = 8"
    "\<forall>s<4. \<forall>c<1. decode_sample bytes (s * 1 + c) \<le> 32767"
    by (auto simp: request_1ch_def)
  then show ?thesis by (intro exI[of _ bytes]) auto
qed

text \<open>
  Without the bound the claim fails: for \<open>channels = 1, sampleRate = 1, bufferSize = 2^31\<close>
  the buffer size cast to \<open>int\<close> is negative and the \<open>int\<close> product for the length wraps
  to 0, so the loops do not run and the payload is empty.
\<close>

theorem GenerateHighPerformanceData_int_overflow:
  "0 < unat (Channels request_huge) \<and> 0 < unat (SampleRate request_huge) \<and>
   0 < unat (BufferSize request_huge) \<and>
   unat (Channels request_huge) * unat (BufferSize request_huge) * 2 = 4294967296 \<and>
   GenerateHighPerformanceData request_huge 0 mid_noise = Inr []"
  by (simp add: GenerateHighPerformanceData_def request_huge_def)

lemma Config_irrelevant:
  "sample_value (r\<lparr>Config := cfg\<rparr>) = sample_value r"
  "sample16 (r\<lparr>Config := cfg\<rparr>) = sample16 r"
  "GenerateHighPerformanceData (r\<lparr>Config := cfg\<rparr>) = GenerateHighPerformanceData r"
  "targetIntervalMs (r\<lparr>Config := cfg\<rparr>) = targetIntervalMs r"
proof -
  have t: "sample_time (r\<lparr>Config := cfg\<rparr>) = sample_time r"
    by (intro ext) (simp add: sample_time_def)
  show v: "sample_value (r\<lparr>Config := cfg\<rparr>) = sample_value r"
    by (intro ext) (simp add: sample_value_def channel_phase_def t)
  show w: "sample16 (r\<lparr>Config := cfg\<rparr>) = sample16 r"
    by (intro ext) (simp add: sample16_def v)
  show "GenerateHighPerformanceData (r\<lparr>Config := cfg\<rparr>) = GenerateHighPerformanceData r"
    by (intro ext) (simp add: GenerateHighPerformanceData_def Let_def w)
  show "targetIntervalMs (r\<lparr>Config := cfg\<rparr>) = targetIntervalMs r"
    by (simp add: targetIntervalMs_def)
qed

lemma sample_value_fixed_mix:
  assumes "unat (BufferSize r) < 2 ^ 31"
  shows "sample_value r seqNumber noise s c =
     32767 * 0.8 *
       (0.6 * sin (2 * pi * (1000 * (1 + real c * 0.1)) *
                    ((real (unat seqNumber) * real (unat (BufferSize r)) + real s)
                       / real (unat (SampleRate r)))) +
        0.3 * sin (2 * (2 * pi * (1000 * (1 + real c * 0.1)) *
                    ((real (unat seqNumber) * real (unat (BufferSize r)) + real s)
                       / real (unat (SampleRate r))))) +
        0.1 * sin (3 * (2 * pi * (1000 * (1 + real c * 0.1)) *
                    ((real (unat seqNumber) * real (unat (BufferSize r)) + real s)
                       / real (unat (SampleRate r))))))
     + (noise s c - 0.5) * (32767 * 0.8) * 0.02"
proof -
  have s: "sint (BufferSize r) = int (unat (BufferSize r))"
    by (rule sint_unat_32[OF assms])
  have "real_of_int (uint seqNumber * sint (BufferSize r) + int s) =
        real (unat seqNumber) * real (unat (BufferSize r)) + real s"
    unfolding s by simp
  then have t: "sample_time r seqNumber s =
      (real (unat seqNumber) * real (unat (BufferSize r)) + real s) / real (unat (SampleRate r))"
    unfolding sample_time_def by (simp only:)
  show ?thesis
    unfolding sample_value_def channel_phase_def t amplitude_def baseFrequency_def by (rule refl)
qed

text \<open>
  C10. The generator reads the channel count, the buffer size and the sample rate of the
  request, the sequence number and the noise, and nothing else: replacing the \<open>config\<close>
  map of a request by any other changes neither the payload nor the chunk and the pause of
  the pacer's turn. Whatever the \<open>config\<close> map says, where the generator produces samples
  (\<open>channels > 0\<close>, \<open>bufferSize > 0\<close> and \<open>channels * bufferSize * 2 < 2^31\<close>) the payload
  has \<open>channels * bufferSize * 2\<close> bytes and the sample of channel \<open>c\<close> at slot \<open>s\<close>, read
  back from the payload, is the fixed mix
  \<open>0.6 sin \<theta> + 0.3 sin 2\<theta> + 0.1 sin 3\<theta>\<close> at the base frequency 1000 Hz (times
  \<open>1 + 0.1 * c\<close>) and the time \<open>(seq * bufferSize + s) / sampleRate\<close>, scaled by
  \<open>0.8 * 32767\<close>, plus the noise term \<open>(u - 0.5) * 0.02 * (0.8 * 32767)\<close>, clamped to the
  16-bit range and truncated.
\<close>

theorem generator_ignores_config:
  "GenerateHighPerformanceData (r\<lparr>Config := cfg\<rparr>) seqNumber noise
     = GenerateHighPerformanceData r seqNumber noise \<and>
   GenerateDataForClient_cycle clientId (r\<lparr>Config := cfg\<rparr>) interval shouldGenerate seqNumber noise
       now_ms duration
     = GenerateDataForClient_cycle clientId r interval shouldGenerate seqNumber noise now_ms duration \<and>
   GenerateDataForClient_turn clientId (r\<lparr>Config := cfg\<rparr>) shouldGenerate seqNumber noise
       now_ms duration
     = GenerateDataForClient_turn clientId r shouldGenerate seqNumber noise now_ms duration \<and>
   (0 < unat (Channels r) \<and> 0 < unat (BufferSize r) \<and>
    unat (Channels r) * unat (BufferSize r) * 2 < 2 ^ 31 \<longrightarrow>
      (\<exists>bytes. GenerateHighPerformanceData (r\<lparr>Config := cfg\<rparr>) seqNumber noise = Inr bytes \<and>
         length bytes = unat (Channels r) * unat (BufferSize r) * 2 \<and>
         (\<forall>s < unat (BufferSize r). \<forall>c < unat (Channels r).
            decode_sample bytes (s * unat (Channels r) + c) =
              truncate_real (Math_Clamp
                (32767 * 0.8 *
                   (0.6 * sin (2 * pi * (1000 * (1 + real c * 0.1)) *
                                ((real (unat seqNumber) * real (unat (BufferSize r)) + real s)
                                   / real (unat (SampleRate r)))) +
                    0.3 * sin (2 * (2 * pi * (1000 * (1 + real c * 0.1)) *
                                ((real (unat seqNumber) * real (unat (BufferSize r)) + real s)
                                   / real (unat (SampleRate r))))) +
                    0.1 * sin (3 * (2 * pi * (1000 * (1 + real c * 0.1)) *
                                ((real (unat seqNumber) * real (unat (BufferSize r)) + real s)
                                   / real (unat (SampleRate r))))))
                 + (noise s c - 0.5) * (32767 * 0.8) * 0.02)
                (- 32768) 32767))))"
proof (intro conjI impI)
  show "GenerateHighPerformanceData (r\<lparr>Config := cfg\<rparr>) seqNumber noise
     = GenerateHighPerformanceData r seqNumber noise"
    by (simp add: Config_irrelevant)
  show "GenerateDataForClient_cycle clientId (r\<lparr>Config := cfg\<rparr>) interval shouldGenerate seqNumber noise
       now_ms duration
     = GenerateDataForClient_cycle clientId r interval shouldGenerate seqNumber noise now_ms duration"
    by (simp add: GenerateDataForClient_cycle_def Config_irrelevant split: sum.splits)
  show "GenerateDataForClient_turn clientId (r\<lparr>Config := cfg\<rparr>) shouldGenerate seqNumber noise
       now_ms duration
     = GenerateDataForClient_turn clientId r shouldGenerate seqNumber noise now_ms duration"
    by (simp add: GenerateDataForClient_turn_def GenerateDataForClient_cycle_def Config_irrelevant
        split: sum.splits)
next
  assume a: "0 < unat (Channels r) \<and> 0 < unat (BufferSize r) \<and>
    unat (Channels r) * unat (BufferSize r) * 2 < 2 ^ 31"
  then have C: "0 < unat (Channels r)" and S: "0 < unat (BufferSize r)"
    and b: "unat (Channels r) * unat (BufferSize r) * 2 < 2 ^ 31" by simp_all
  have Sb: "unat (BufferSize r) < 2 ^ 31"
    using factor_bounds[OF C S b] by blast
  from GenerateHighPerformanceData_filled[OF C S b, of seqNumber noise]
  obtain bytes where g: "GenerateHighPerformanceData r seqNumber noise = Inr bytes"
    and len: "length bytes = unat (Channels r) * unat (BufferSize r) * 2"
    and lay: "\<And>s c. s < unat (BufferSize r) \<Longrightarrow> c < unat (Channels r) \<Longrightarrow>
              bytes ! (2 * (s * unat (Channels r) + c)) = low_byte (sample16 r seqNumber noise s c) \<and>
              bytes ! (2 * (s * unat (Channels r) + c) + 1) = high_byte (sample16 r seqNumber noise s c)"
    by blast
  have dec: "decode_sample bytes (s * unat (Channels r) + c) =
                truncate_real (Math_Clamp (sample_value r seqNumber noise s c) (- 32768) 32767)"
    if "s < unat (BufferSize r)" "c < unat (Channels r)" for s c
    using decode_sample16[of bytes "s * unat (Channels r) + c" "sample16 r seqNumber noise s c"]
      lay[OF that] by (simp add: sint_sample16)
  show "\<exists>bytes. GenerateHighPerformanceData (r\<lparr>Config := cfg\<rparr>) seqNumber noise = Inr bytes \<and>
         length bytes = unat (Channels r) * unat (BufferSize r) * 2 \<and>
         (\<forall>s < unat (BufferSize r). \<forall>c < unat (Channels r).
            decode_sample bytes (s * unat (Channels r) + c) =
              truncate_real (Math_Clamp
                (32767 * 0.8 *
                   (0.6 * sin (2 * pi * (1000 * (1 + real c * 0.1)) *
                                ((real (unat seqNumber) * real (unat (BufferSize r)) + real s)
                                   / real (unat (SampleRate r)))) +
                    0.3 * sin (2 * (2 * pi * (1000 * (1 + real c * 0.1)) *
                                ((real (unat seqNumber) * real (unat (BufferSize r)) + real s)
                                   / real (unat (SampleRate r))))) +
                    0.1 * sin (3 * (2 * pi * (1000 * (1 + real c * 0.1)) *
                                ((real (unat seqNumber) * real (unat (BufferSize r)) + real s)
                                   / real (unat (SampleRate r))))))
                 + (noise s c - 0.5) * (32767 * 0.8) * 0.02)
                (- 32768) 32767))"
  proof (intro exI[of _ bytes] conjI allI impI)
    show "GenerateHighPerformanceData (r\<lparr>Config := cfg\<rparr>) seqNumber noise = Inr bytes"
      by (simp add: Config_irrelevant g)
    show "length bytes = unat (Channels r) * unat (BufferSize r) * 2" by (rule len)
  next
    fix s c assume sc: "s < unat (BufferSize r)" "c < unat (Channels r)"
    show "decode_sample bytes (s * unat (Channels r) + c) =
              truncate_real (Math_Clamp
                (32767 * 0.8 *
                   (0.6 * sin (2 * pi * (1000 * (1 + real c * 0.1)) *
                                ((real (unat seqNumber) * real (unat (BufferSize r)) + real s)
                                   / real (unat (SampleRate r)))) +
                    0.3 * sin (2 * (2 * pi * (1000 * (1 + real c * 0.1)) *
                                ((real (unat seqNumber) * real (unat (BufferSize r)) + real s)
                                   / real (unat (SampleRate r))))) +
                    0.1 * sin (3 * (2 * pi * (1000 * (1 + real c * 0.1)) *
                                ((real (unat seqNumber) * real (unat (BufferSize r)) + real s)
                                   / real (unat (SampleRate r))))))
                 + (noise s c - 0.5) * (32767 * 0.8) * 0.02)
                (- 32768) 32767)"
      unfolding dec[OF sc] sample_value_fixed_mix[OF Sb] by (rule refl)
  qed
qed

theorem generator_ignores_config_witness:
  "GenerateHighPerformanceData (request_1ch\<lparr>Config := Config request_sine\<rparr>) 0 mid_noise
     = GenerateHighPerformanceData request_1ch 0 mid_noise \<and>
   (\<exists>bytes. GenerateHighPerformanceData (request_1ch\<lparr>Config := Config request_sine\<rparr>) 0 mid_noise
        = Inr bytes \<and>
      length bytes = 8 \<and> decode_sample bytes 0 = 0)"
proof -
  have a: "0 < unat (Channels request_1ch) \<and> 0 < unat (BufferSize request_1ch) \<and>
    unat (Channels request_1ch) * unat (BufferSize request_1ch) * 2 < 2 ^ 31"
    by (simp add: request_1ch_def)
  have z: "truncate_real (Math_Clamp 0 (- 32768) 32767) = 0"
    by (simp add: truncate_real_def Math_Clamp_def)
  note T = generator_ignores_config[where r = request_1ch and cfg = "Config request_sine"
      and seqNumber = 0 and noise = mid_noise]
  have 1: "GenerateHighPerformanceData (request_1ch\<lparr>Config := Config request_sine\<rparr>) 0 mid_noise
     = GenerateHighPerformanceData request_1ch 0 mid_noise"
    by (rule T[THEN conjunct1])
  have 2: "\<exists>bytes. GenerateHighPerformanceData (request_1ch\<lparr>Config := Config request_sine\<rparr>) 0 mid_noise
        = Inr bytes \<and>
      length bytes = 8 \<and> decode_sample bytes 0 = 0"
    using T[THEN conjunct2, THEN conjunct2, THEN conjunct2, rule_format, OF a]
    apply (elim exE conjE)
    subgoal for bytes
      apply (rule exI[of _ bytes])
      apply (drule spec[of _ 0])
      apply (drule mp)
       apply (simp add: request_1ch_def)
      apply (drule spec[of _ 0])
      apply (drule mp)
       apply (simp add: request_1ch_def)
      apply (simp add: request_1ch_def mid_noise_def z)
      done
    done
  from 1 2 show ?thesis by (rule conjI)
qed


section \<open>The first chunk for a sine request\<close>

lemma sine_request_time: "sample_time request_sine 0 k = real k / 1000"
  by (simp add: sample_time_def request_sine_def)

lemma sine_request_phase: "channel_phase request_sine 0 k 0 = 2 * pi * real k"
  by (simp add: channel_phase_def sine_request_time baseFrequency_def)

lemma sin_multiples:
  "sin (2 * pi * real k) = 0" "sin (2 * (2 * pi * real k)) = 0" "sin (3 * (2 * pi * real k)) = 0"
proof -
  have "2 * pi * real k = real (2 * k) * pi" by simp
  then show "sin (2 * pi * real k) = 0" by (simp only: sin_npi)
  have "2 * (2 * pi * real k) = real (4 * k) * pi" by simp
  then show "sin (2 * (2 * pi * real k)) = 0" by (simp only: sin_npi)
  have "3 * (2 * pi * real k) = real (6 * k) * pi" by simp
  then show "sin (3 * (2 * pi * real k)) = 0" by (simp only: sin_npi)
qed

lemma sine_request_value:
  "sample_value request_sine 0 noise k 0 = (noise k 0 - 0.5) * amplitude * 0.02"
  unfolding sample_value_def sine_request_phase sin_multiples by simp

lemma small_value_bound:
  fixes x :: real
  assumes lo: "- 263 < x" and hi: "x < 263"
  shows "\<bar>truncate_real (Math_Clamp x (- 32768) 32767)\<bar> \<le> 262"
proof -
  have c: "Math_Clamp x (- 32768) 32767 = x" using assms by (simp add: Math_Clamp_def)
  show ?thesis
  proof (cases "0 \<le> x")
    case True
    then have "truncate_real x = \<lfloor>x\<rfloor>" by (simp add: truncate_real_def)
    moreover have "\<lfloor>x\<rfloor> \<le> 262" using hi by (simp add: floor_le_iff)
    moreover have "0 \<le> \<lfloor>x\<rfloor>" using True by simp
    ultimately show ?thesis unfolding c by linarith
  next
    case False
    then have "truncate_real x = \<lceil>x\<rceil>" by (simp add: truncate_real_def)
    moreover have "- 262 \<le> \<lceil>x\<rceil>" using lo by (simp add: le_ceiling_iff)
    moreover have "\<lceil>x\<rceil> \<le> 0" using False by (simp add: ceiling_le_iff)
    ultimately show ?thesis unfolding c by linarith
  qed
qed

lemma noise_only_bound:
  assumes "0 \<le> u" "u < 1"
  shows "\<bar>truncate_real (Math_Clamp ((u - 0.5) * amplitude * 0.02) (- 32768) 32767)\<bar> \<le> 262"
proof -
  have v: "(u - 0.5) * amplitude * 0.02 = (u - 0.5) * 524.272" by (simp add: amplitude_def)
  have "- 263 < (u - 0.5) * 524.272" "(u - 0.5) * 524.272 < 263" using assms by simp_all
  then show ?thesis unfolding v by (rule small_value_bound)
qed

lemma mock_sine_samples:
  "generateSample config_sine u (0 / 1000) 0 = 0"
  "generateSample config_sine u (1 / 1000) 0 = 1"
  "generateSample config_sine u (2 / 1000) 0 = 0"
  "generateSample config_sine u (3 / 1000) 0 = - 1"
proof -
  have p: "2 * pi * (250 * (1 + real 0 * 0.1)) * (x / 1000) = x * pi / 2" for x :: real by simp
  show "generateSample config_sine u (0 / 1000) 0 = 0"
    by (simp add: generateSample_def config_sine_def)
  show "generateSample config_sine u (1 / 1000) 0 = 1"
    by (simp add: generateSample_def config_sine_def)
  have "sin (2 * pi * 250 * 2 / 1000) = sin pi" by simp
  then show "generateSample config_sine u (2 / 1000) 0 = 0"
    by (simp add: generateSample_def config_sine_def)
  have "(pi * 1500 / 1000) = 3 / 2 * pi" by simp
  then have "sin (pi * 1500 / 1000) = - 1" by (simp only: sin_3over2_pi)
  then show "generateSample config_sine u (3 / 1000) 0 = - 1"
    by (simp add: generateSample_def config_sine_def)
qed


lemma sine_request_sample16_mid: "sample16 request_sine 0 mid_noise k 0 = 0"
  by (simp add: sample16_def sine_request_value mid_noise_def Math_Clamp_def truncate_real_def)

lemma sine_request_layout:
  "\<exists>bytes. GenerateHighPerformanceData request_sine 0 noise = Inr bytes \<and> length bytes = 8 \<and>
     (\<forall>k < 4. bytes ! (2 * k) = low_byte (sample16 request_sine 0 noise k 0) \<and>
              bytes ! (2 * k + 1) = high_byte (sample16 request_sine 0 noise k 0))"
proof -
  have a: "0 < unat (Channels request_sine)" "0 < unat (BufferSize request_sine)"
    "unat (Channels request_sine) * unat (BufferSize request_sine) * 2 < 2 ^ 31"
    by (simp_all add: request_sine_def)
  have c: "unat (Channels request_sine) = 1" "unat (BufferSize request_sine) = 4"
    by (simp_all add: request_sine_def)
  from GenerateHighPerformanceData_filled[OF a, of 0 noise]
  obtain bytes where g: "GenerateHighPerformanceData request_sine 0 noise = Inr bytes"
    and len: "length bytes = 8"
    and lay: "\<forall>s<4. \<forall>c<1. bytes ! (2 * (s * 1 + c)) = low_byte (sample16 request_sine 0 noise s c) \<and>
         bytes ! (2 * (s * 1 + c) + 1) = high_byte (sample16 request_sine 0 noise s c)"
    unfolding c by auto
  from lay have "\<forall>k < 4. bytes ! (2 * k) = low_byte (sample16 request_sine 0 noise k 0) \<and>
              bytes ! (2 * k + 1) = high_byte (sample16 request_sine 0 noise k 0)"
    by auto
  with g len show ?thesis by blast
qed

lemma sine_request_mid_payload:
  "GenerateHighPerformanceData request_sine 0 mid_noise = Inr [0, 0, 0, 0, 0, 0, 0, 0]"
proof -
  from sine_request_layout[of mid_noise]
  obtain bytes where g: "GenerateHighPerformanceData request_sine 0 mid_noise = Inr bytes"
    and len: "length bytes = 8"
    and lay: "\<And>k. k < 4 \<Longrightarrow> bytes ! (2 * k) = 0 \<and> bytes ! (2 * k + 1) = 0"
    by (auto simp: sine_request_sample16_mid low_byte_def high_byte_def)
  have z: "bytes ! i = 0" if "i < 8" for i
  proof -
    have "i = 2 * (i div 2) \<or> i = 2 * (i div 2) + 1" by presburger
    moreover have "i div 2 < 4" using that by simp
    ultimately show ?thesis using lay[of "i div 2"] by metis
  qed
  have "bytes = replicate 8 0"
    by (rule nth_equalityI) (simp_all add: len z)
  also have "replicate 8 (0 :: byte) = [0, 0, 0, 0, 0, 0, 0, 0]"
    by (simp add: numeral_eq_Suc)
  finally show ?thesis using g by simp
qed


text \<open>
  C6 (as amended). For the request \<open>channels = 1, sampleRate = 1000, bufferSize = 4\<close> with
  the configuration \<open>sine, amplitude 1.0, frequency 250\<close> the server's first chunk has 8
  bytes, and each of its four samples is within 262 of 0, whatever the noise (in \<open>[0, 1)\<close>):
  the configuration is not read, and the fixed 1000 Hz mix sampled at 1000 Hz is at a zero
  of every harmonic at every sample, so only the noise term is left. The values
  \<open>0, 1, 0, -1\<close> (not scaled to 16 bits) are what the client's \<open>generateSample\<close> computes
  for that configuration at the times \<open>0, 1/1000, 2/1000, 3/1000\<close>.
\<close>

theorem sine_request_first_chunk:
  assumes "\<forall>s c. 0 \<le> noise s c \<and> noise s c < 1"
  shows "(\<exists>bytes. GenerateHighPerformanceData request_sine 0 noise = Inr bytes \<and> length bytes = 8 \<and>
            (\<forall>k < 4. \<bar>decode_sample bytes k\<bar> \<le> 262)) \<and>
         GenerateHighPerformanceData (request_sine\<lparr>Config := []\<rparr>) 0 noise
           = GenerateHighPerformanceData request_sine 0 noise \<and>
         map (\<lambda>k. generateSample config_sine u (real k / 1000) 0) [0, 1, 2, 3] = [0, 1, 0, - 1]"
proof (intro conjI)
  from sine_request_layout[of noise]
  obtain bytes where g: "GenerateHighPerformanceData request_sine 0 noise = Inr bytes"
    and len: "length bytes = 8"
    and lay: "\<And>k. k < 4 \<Longrightarrow> bytes ! (2 * k) = low_byte (sample16 request_sine 0 noise k 0) \<and>
              bytes ! (2 * k + 1) = high_byte (sample16 request_sine 0 noise k 0)"
    by blast
  have "\<bar>decode_sample bytes k\<bar> \<le> 262" if "k < 4" for k
  proof -
    have "decode_sample bytes k = sint (sample16 request_sine 0 noise k 0)"
      using lay[OF that] by (intro decode_sample16) simp_all
    also have "\<dots> = truncate_real (Math_Clamp ((noise k 0 - 0.5) * amplitude * 0.02) (- 32768) 32767)"
      by (simp only: sint_sample16 sine_request_value)
    finally show ?thesis using noise_only_bound[of "noise k 0"] assms by simp
  qed
  with g len show "\<exists>bytes. GenerateHighPerformanceData request_sine 0 noise = Inr bytes \<and>
      length bytes = 8 \<and> (\<forall>k < 4. \<bar>decode_sample bytes k\<bar> \<le> 262)" by blast
next
  have "sample16 (request_sine\<lparr>Config := []\<rparr>) = sample16 request_sine"
    by (intro ext) (simp add: sample16_def sample_value_def channel_phase_def sample_time_def)
  then show "GenerateHighPerformanceData (request_sine\<lparr>Config := []\<rparr>) 0 noise
           = GenerateHighPerformanceData request_sine 0 noise"
    by (simp add: GenerateHighPerformanceData_def Let_def)
next
  show "map (\<lambda>k. generateSample config_sine u (real k / 1000) 0) [0, 1, 2, 3] = [0, 1, 0, - 1]"
    using mock_sine_samples[of u] by simp
qed

theorem sine_request_first_chunk_witness:
  "\<exists>bytes. GenerateHighPerformanceData request_sine 0 mid_noise = Inr bytes \<and> length bytes = 8 \<and>
      \<bar>decode_sample bytes 1\<bar> \<le> 262 \<and> \<bar>decode_sample bytes 3\<bar> \<le> 262"
proof -
  have a: "\<forall>s c. 0 \<le> mid_noise s c \<and> mid_noise s c < 1" by (simp add: mid_noise_def)
  from sine_request_first_chunk[OF a, of 0]
  obtain bytes where "GenerateHighPerformanceData request_sine 0 mid_noise = Inr bytes"
    "length bytes = 8" "\<forall>k < 4. \<bar>decode_sample bytes k\<bar> \<le> 262" by blast
  then show ?thesis by (intro exI[of _ bytes]) simp
qed

text \<open>
  The claim as stated fails on the server: with no noise (every draw 0.5) the four samples
  of the first chunk are 0, not \<open>0, A, 0, -A\<close> for a 16-bit amplitude \<open>A\<close>.
\<close>

theorem sine_request_all_zero:
  "GenerateHighPerformanceData request_sine 0 mid_noise = Inr [0, 0, 0, 0, 0, 0, 0, 0] \<and>
   decode_samples [0, 0, 0, 0, 0, 0, 0, 0] = [0, 0, 0, 0] \<and>
   \<not> approximates 1 (decode_samples [0, 0, 0, 0, 0, 0, 0, 0]) [0, 32767, 0, - 32767] \<and>
   \<not> approximates 1 (decode_samples [0, 0, 0, 0, 0, 0, 0, 0]) [0, 26213, 0, - 26213]"
proof -
  have u: "[0..<4] = [0, 1, 2, 3]" by (simp add: upt_conv_Cons)
  have d: "decode_samples [0, 0, 0, 0, 0, 0, 0, 0] = [0, 0, 0, 0]"
    by (simp add: decode_samples_def decode_sample_def u word_cat_eq)
  show ?thesis
    by (simp add: sine_request_mid_payload d approximates_def)
qed


section \<open>The pacer's sleep and interval\<close>

lemma pacer_pause_Finite:
  "pacer_pause (Finite i) d = (if d < i then Delay (i - d) else NoDelay)"
  by (simp add: pacer_pause_def targetDelay_def max_def)

lemma turn_pause:
  assumes "GenerateHighPerformanceData r seqNumber noise = Inr bytes"
  shows "\<exists>cyc. GenerateDataForClient_turn cid r True seqNumber noise now_ms d = Inr cyc \<and>
               pause_out cyc = pacer_pause (targetIntervalMs r) d \<and>
               map_option Payload (chunk_out cyc) = Some bytes"
  using assms by (simp add: GenerateDataForClient_turn_def GenerateDataForClient_cycle_def)

lemma turn_paused:
  "GenerateDataForClient_turn cid r False seqNumber noise now_ms d =
     Inr \<lparr>chunk_out = None, next_seq = seqNumber, pause_out = Delay 10\<rparr>"
  by (simp add: GenerateDataForClient_turn_def GenerateDataForClient_cycle_def)

lemma sint_times_2:
  assumes "0 < sint (b :: 32 word)" "sint b < 2 ^ 30"
  shows "sint (word_of_int (sint b * 2) :: 32 word) = 2 * sint b"
proof -
  have "sint (word_of_int (sint b * 2) :: 32 word) = signed_take_bit 31 (sint b * 2)"
    using sint_sbintrunc'[of "sint b * 2", where 'a = 32] by simp
  also have "\<dots> = sint b * 2"
    using assms by (intro signed_take_bit_int_eq_self) auto
  finally show ?thesis by simp
qed

lemma single_channel_interval:
  assumes "Channels r = 1" "SampleRate r \<noteq> 0" "0 < unat (BufferSize r)" "unat (BufferSize r) < 2 ^ 30"
  shows "bytesPerChunk r = int (unat (Channels r) * unat (BufferSize r) * 2)"
    and "targetDataRate r = int (unat (Channels r) * unat (SampleRate r) * 2)"
    and "targetIntervalMs r = Finite (1000 * real_of_int (bytesPerChunk r) / real_of_int (targetDataRate r))"
proof -
  have "unat (BufferSize r) < 2 ^ 31" using assms(4) by simp
  then have s: "sint (BufferSize r) = int (unat (BufferSize r))" by (rule sint_unat_32)
  have "int (unat (BufferSize r)) < int (2 ^ 30)"
    using assms(4) by (simp only: of_nat_less_iff)
  then have s1: "sint (BufferSize r) < 2 ^ 30"
    unfolding s by simp
  have s0: "0 < sint (BufferSize r)"
    unfolding s using assms(3) by (simp only: of_nat_0_less_iff)
  show b: "bytesPerChunk r = int (unat (Channels r) * unat (BufferSize r) * 2)"
    using sint_times_2[OF s0 s1] s by (simp add: bytesPerChunk_def assms(1))
  show t: "targetDataRate r = int (unat (Channels r) * unat (SampleRate r) * 2)"
    by (simp add: targetDataRate_def assms(1))
  have nz: "unat (SampleRate r) \<noteq> 0" using assms(2) by (simp add: unat_eq_0)
  show "targetIntervalMs r = Finite (1000 * real_of_int (bytesPerChunk r) / real_of_int (targetDataRate r))"
  proof -
    have sne: "sint (BufferSize r) \<noteq> 0" "\<not> sint (BufferSize r) < 0" using s0 by simp_all
    have rs: "(signed (BufferSize r) :: real) = unsigned (BufferSize r)"
      using arg_cong[OF s, of real_of_int] by simp
    have i: "targetIntervalMs r =
        Finite (1000 / (real (unat (SampleRate r)) / real (unat (BufferSize r))))"
      using nz sne by (simp add: targetIntervalMs_def Let_def assms(1) rs)
    show ?thesis
      unfolding i b t by (simp add: assms(1))
  qed
qed

lemma single_channel_generates:
  assumes "Channels r = 1" "0 < unat (BufferSize r)" "unat (BufferSize r) < 2 ^ 30"
  shows "\<exists>bytes. GenerateHighPerformanceData r seqNumber noise = Inr bytes"
proof -
  have C: "0 < unat (Channels r)" by (simp add: assms(1))
  have b: "unat (Channels r) * unat (BufferSize r) * 2 < 2 ^ 31"
    using assms(3) by (simp add: assms(1))
  from GenerateHighPerformanceData_filled[OF C assms(2) b, of seqNumber noise]
  show ?thesis by blast
qed

lemma chunkInterval_eq:
  assumes "T \<noteq> 0"
  shows "chunkInterval cfg T = Some (max 8 (1000 * bytesPerChunk_mock cfg / (T * 1024 * 1024)))"
  using assms by (simp add: chunkInterval_def)


text \<open>
  C7 (as amended). Where the interval \<open>targetIntervalMs\<close> that the server's pacer computes
  from the request is a finite number, a turn of its loop that generated a chunk ends with
  a sleep of \<open>max(0, targetIntervalMs - generationDurationMs)\<close> if that is positive, and
  with no sleep at all when the generation took the interval or longer. For a
  single-channel request with \<open>sampleRate > 0\<close> and \<open>0 < bufferSize < 2^30\<close> (so that
  \<open>bytesPerChunk\<close> fits its \<open>int\<close>) the turn generates a chunk and the interval is
  \<open>1000 * bytesPerChunk / targetDataRate\<close>, with
  \<open>bytesPerChunk = channels * bufferSize * 2\<close> and the target
  \<open>channels * sampleRate * 2\<close> bytes per second that \<open>Subscribe\<close> computes. The client's
  \<open>HighPerformanceStreamer\<close> computes, for a target in MB/s that is not 0, the interval
  \<open>max(8, 1000 * bytesPerChunk / targetBytesPerSecond)\<close> with
  \<open>bytesPerChunk = channels * bufferSize * 2\<close>.
\<close>

theorem pacer_sleep_and_interval:
  "(targetIntervalMs r = Finite i \<longrightarrow>
      targetDelay (targetIntervalMs r) d = Finite (max 0 (i - d)) \<and>
      (GenerateHighPerformanceData r seqNumber noise = Inr bytes \<longrightarrow>
         (\<exists>cyc. GenerateDataForClient_turn cid r True seqNumber noise now_ms d = Inr cyc \<and>
                map_option Payload (chunk_out cyc) = Some bytes \<and>
                pause_out cyc = (if 0 < max 0 (i - d) then Delay (max 0 (i - d)) else NoDelay) \<and>
                (i \<le> d \<longrightarrow> pause_out cyc = NoDelay)))) \<and>
   (Channels r = 1 \<and> SampleRate r \<noteq> 0 \<and> 0 < unat (BufferSize r) \<and> unat (BufferSize r) < 2 ^ 30 \<longrightarrow>
      bytesPerChunk r = int (unat (Channels r) * unat (BufferSize r) * 2) \<and>
      targetDataRate r = int (unat (Channels r) * unat (SampleRate r) * 2) \<and>
      targetIntervalMs r =
        Finite (1000 * real_of_int (bytesPerChunk r) / real_of_int (targetDataRate r)) \<and>
      (\<exists>cyc. GenerateDataForClient_turn cid r True seqNumber noise now_ms d = Inr cyc \<and>
             chunk_out cyc \<noteq> None \<and>
             pause_out cyc =
               (if d < 1000 * real_of_int (bytesPerChunk r) / real_of_int (targetDataRate r)
                then Delay (1000 * real_of_int (bytesPerChunk r) / real_of_int (targetDataRate r) - d)
                else NoDelay))) \<and>
   bytesPerChunk_mock cfg = real (channels cfg) * real (bufferSize cfg) * 2 \<and>
   (T \<noteq> 0 \<longrightarrow>
      chunkInterval cfg T = Some (max 8 (1000 * bytesPerChunk_mock cfg / (T * 1024 * 1024))))"
proof (intro conjI impI)
  show "bytesPerChunk_mock cfg = real (channels cfg) * real (bufferSize cfg) * 2"
    by (simp add: bytesPerChunk_mock_def)
next
  assume i: "targetIntervalMs r = Finite i"
  show "targetDelay (targetIntervalMs r) d = Finite (max 0 (i - d))"
    by (simp add: i targetDelay_def)
  assume "GenerateHighPerformanceData r seqNumber noise = Inr bytes"
  from turn_pause[OF this, of cid now_ms d]
  obtain cyc where c: "GenerateDataForClient_turn cid r True seqNumber noise now_ms d = Inr cyc"
    "pause_out cyc = pacer_pause (targetIntervalMs r) d"
    "map_option Payload (chunk_out cyc) = Some bytes" by blast
  have p: "pause_out cyc = (if 0 < max 0 (i - d) then Delay (max 0 (i - d)) else NoDelay)"
    by (simp add: c(2) i pacer_pause_def targetDelay_def)
  have q: "i \<le> d \<longrightarrow> pause_out cyc = NoDelay"
    by (simp add: c(2) i pacer_pause_Finite)
  from c(1) c(3) p q
  show "\<exists>cyc. GenerateDataForClient_turn cid r True seqNumber noise now_ms d = Inr cyc \<and>
                map_option Payload (chunk_out cyc) = Some bytes \<and>
                pause_out cyc = (if 0 < max 0 (i - d) then Delay (max 0 (i - d)) else NoDelay) \<and>
                (i \<le> d \<longrightarrow> pause_out cyc = NoDelay)"
    by blast
next
  assume a: "Channels r = 1 \<and> SampleRate r \<noteq> 0 \<and> 0 < unat (BufferSize r) \<and> unat (BufferSize r) < 2 ^ 30"
  then have a': "Channels r = 1" "SampleRate r \<noteq> 0" "0 < unat (BufferSize r)"
    "unat (BufferSize r) < 2 ^ 30" by simp_all
  show "bytesPerChunk r = int (unat (Channels r) * unat (BufferSize r) * 2)"
    by (rule single_channel_interval(1)[OF a'])
  show "targetDataRate r = int (unat (Channels r) * unat (SampleRate r) * 2)"
    by (rule single_channel_interval(2)[OF a'])
  show i: "targetIntervalMs r =
        Finite (1000 * real_of_int (bytesPerChunk r) / real_of_int (targetDataRate r))"
    by (rule single_channel_interval(3)[OF a'])
  from single_channel_generates[OF a'(1,3,4), of seqNumber noise]
  obtain bytes where "GenerateHighPerformanceData r seqNumber noise = Inr bytes" by blast
  from turn_pause[OF this, of cid now_ms d]
  obtain cyc where c: "GenerateDataForClient_turn cid r True seqNumber noise now_ms d = Inr cyc"
    "pause_out cyc = pacer_pause (targetIntervalMs r) d"
    "map_option Payload (chunk_out cyc) = Some bytes" by blast
  have n: "chunk_out cyc \<noteq> None" using c(3) by auto
  have p: "pause_out cyc =
               (if d < 1000 * real_of_int (bytesPerChunk r) / real_of_int (targetDataRate r)
                then Delay (1000 * real_of_int (bytesPerChunk r) / real_of_int (targetDataRate r) - d)
                else NoDelay)"
    unfolding c(2) i by (rule pacer_pause_Finite)
  from c(1) n p
  show "\<exists>cyc. GenerateDataForClient_turn cid r True seqNumber noise now_ms d = Inr cyc \<and>
             chunk_out cyc \<noteq> None \<and>
             pause_out cyc =
               (if d < 1000 * real_of_int (bytesPerChunk r) / real_of_int (targetDataRate r)
                then Delay (1000 * real_of_int (bytesPerChunk r) / real_of_int (targetDataRate r) - d)
                else NoDelay)"
    by blast
next
  assume "T \<noteq> 0"
  then show "chunkInterval cfg T = Some (max 8 (1000 * bytesPerChunk_mock cfg / (T * 1024 * 1024)))"
    by (rule chunkInterval_eq)
qed

theorem pacer_sleep_and_interval_witness:
  "targetIntervalMs request_1ch = Finite 4 \<and>
   targetDelay (targetIntervalMs request_1ch) 1 = Finite 3 \<and>
   (\<exists>cyc. GenerateDataForClient_turn ''client-1'' request_1ch True 0 mid_noise 0 1 = Inr cyc \<and>
          pause_out cyc = Delay 3) \<and>
   (\<exists>cyc. GenerateDataForClient_turn ''client-1'' request_1ch True 0 mid_noise 0 5 = Inr cyc \<and>
          pause_out cyc = NoDelay) \<and>
   chunkInterval config_69846H 640 = Some 8"
proof -
  have a: "Channels request_1ch = 1 \<and> SampleRate request_1ch \<noteq> 0 \<and>
      0 < unat (BufferSize request_1ch) \<and> unat (BufferSize request_1ch) < 2 ^ 30"
    by (simp add: request_1ch_def)
  have t: "(640 :: real) \<noteq> 0" by simp
  have b: "bytesPerChunk request_1ch = 8" "targetDataRate request_1ch = 2000"
    by (simp_all add: bytesPerChunk_def targetDataRate_def request_1ch_def)
  have m: "bytesPerChunk_mock config_69846H = 800000"
    by (simp add: bytesPerChunk_mock_def config_69846H_def)
  have i: "targetIntervalMs request_1ch = Finite 4"
    by (simp add: targetIntervalMs_def request_1ch_def)
  from pacer_sleep_and_interval[where r = request_1ch and i = 4 and d = 1
        and cid = "''client-1''" and seqNumber = 0 and noise = mid_noise and now_ms = 0
        and cfg = config_69846H and T = 640]
    pacer_sleep_and_interval[where r = request_1ch and i = 4 and d = 5
        and cid = "''client-1''" and seqNumber = 0 and noise = mid_noise and now_ms = 0
        and cfg = config_69846H and T = 640]
    a t i
  show ?thesis by (auto simp: b m)
qed

text \<open>
  The interval is not \<open>1000 * bytesPerChunk / targetBytesPerSecond\<close> in general. On the
  server, for 2 channels at 1000 Hz with 1000 samples per channel and chunk, a chunk has
  4000 bytes and the target is 4000 bytes per second, yet the interval is 500 ms: the
  chunk rate is computed from the samples of all channels divided by the samples of one.
  On the client, for 4 channels of 100000 samples and 640 MB/s the quotient is about
  1.19 ms and the interval is 8 ms.
\<close>

theorem pacer_interval_differs:
  "targetIntervalMs request_2ch = Finite 500 \<and>
   1000 * real_of_int (bytesPerChunk request_2ch) / real_of_int (targetDataRate request_2ch) = 1000 \<and>
   chunkInterval config_69846H 640 = Some 8 \<and>
   1000 * bytesPerChunk_mock config_69846H / (640 * 1024 * 1024) < 2"
proof -
  have b: "bytesPerChunk request_2ch = 4000" "targetDataRate request_2ch = 4000"
    by (simp_all add: bytesPerChunk_def targetDataRate_def request_2ch_def)
  have i: "targetIntervalMs request_2ch = Finite 500"
    by (simp add: targetIntervalMs_def request_2ch_def)
  have m: "bytesPerChunk_mock config_69846H = 800000"
    by (simp add: bytesPerChunk_mock_def config_69846H_def)
  have c: "chunkInterval config_69846H 640 = Some 8"
    by (simp add: chunkInterval_def m)
  show ?thesis by (simp add: b i m c)
qed

end
